theory Spec2Isabelle
  imports Main "HOL-Library.AList" "HOL-Library.List_Lexorder"
begin

section \<open>The PoetryGame server (server.js) as a state machine\<close>

text \<open>
  The model follows the current \<^verbatim>\<open>server.js\<close> (the version with the admin panel,
  lines 1 to 922 of \<^verbatim>\<open>src/server.js\<close>), function by function; the text after it in
  that file and in \<^verbatim>\<open>src/unnamed\<close> is an older copy of the server and the browser
  client. The module-level variables \<^verbatim>\<open>rooms\<close>, \<^verbatim>\<open>localCache\<close>,
  \<^verbatim>\<open>reconnectTimeouts\<close> and \<^verbatim>\<open>choiceTimeouts\<close> are the fields of one record that
  every function takes and returns. The event loop's table of pending \<^verbatim>\<open>setTimeout\<close>
  callbacks, the clock behind \<^verbatim>\<open>Date.now()\<close>, the connected sockets and everything
  emitted through socket.io are fields of the same record.

  A JavaScript string is the list of its UTF-16 code units; the payloads of the socket
  events (nickname, answer, vote, character) are strings. The regular expression
  \<^verbatim>\<open>/[\s\p{P}]/u\<close>, \<^verbatim>\<open>String.prototype.trim\<close> and \<^verbatim>\<open>toLowerCase\<close> depend on
  the Unicode tables of the runtime, which are no part of the repository: they are the
  three fields of the parameter \<open>U\<close>. (ECMAScript gives \<^verbatim>\<open>trim\<close> and \<^verbatim>\<open>\s\<close> the
  same set of characters; the model treats each code unit as one character, which is
  exact on the Basic Multilingual Plane.)

  Objects used as dictionaries (\<^verbatim>\<open>room.players\<close>, \<^verbatim>\<open>votes\<close>, \<^verbatim>\<open>timeouts\<close>) are
  association lists in insertion order where the source enumerates them, and maps where
  it only looks keys up. A lookup \<^verbatim>\<open>obj[key]\<close> also finds the properties that every
  object inherits from \<^verbatim>\<open>Object.prototype\<close>: \<open>joinRoom\<close>, where a client's nickname
  first meets \<^verbatim>\<open>room.players\<close>, models that lookup with the names of these properties
  (\<open>object_prototype_names\<close>); the other functions look at own properties only, their
  keys being taken not to be such names. A read of a property of \<^verbatim>\<open>undefined\<close> is
  the error \<open>TypeError\<close>. The debounced file writes (\<^verbatim>\<open>scheduleSaveRooms\<close>,
  \<^verbatim>\<open>scheduleSaveCache\<close>) and \<^verbatim>\<open>console.log\<close> touch nothing the game reads back
  while it runs and are left out, as is the membership of sockets in socket.io rooms
  (\<^verbatim>\<open>socket.join\<close>, \<^verbatim>\<open>socket.leave\<close>). The snapshot sent with
  \<^verbatim>\<open>gameStateUpdate\<close> and \<^verbatim>\<open>roomListUpdate\<close> is a function of the state at that
  moment; the model records that the event was emitted and to whom.
\<close>

subsection \<open>Data\<close>

type_synonym jstring = "nat list"

record unicode =
  is_space :: "nat \<Rightarrow> bool"
  is_punct :: "nat \<Rightarrow> bool"
  toLowerCase :: "jstring \<Rightarrow> jstring"

datatype error = TypeError

record player =
  nickname :: jstring
  score :: nat
  online :: bool
  socketId :: "nat option"
  disconnectTime :: "nat option"

record submission =
  answer :: jstring
  sub_nickname :: jstring

record vote =
  submission :: submission
  votes :: "(jstring \<times> jstring) list"
  endTime :: nat
  voters :: "jstring list"
  timeouts :: "(jstring \<times> nat) list"

text \<open>One constructor for each message template of the source.\<close>

datatype msg_content =
    MsgLeft jstring
  | MsgLostConnection jstring
  | MsgDropped jstring
  | MsgWelcome jstring
  | MsgReconnected jstring
  | MsgWithdrew jstring
  | MsgVoteAborted
  | MsgVerifying jstring jstring
  | MsgCacheHit jstring
  | MsgToVote jstring
  | MsgChoiceTimeout jstring
  | MsgVoteTimeout jstring
  | MsgVoted jstring
  | MsgAutoValid jstring
  | MsgAutoPass jstring
  | MsgVotePassed jstring
  | MsgVoteFailed jstring
  | MsgNewRound jstring jstring
  | HintAlreadySubmitted
  | HintIllegalChars
  | HintRecentlyUsed jstring
  | HintNoStartChar

datatype msg_class = GameMessage | PrivateMessage

record message =
  content :: msg_content
  className :: msg_class
  timestamp :: nat

record room =
  room_id :: jstring
  room_name :: jstring
  players :: "(jstring \<times> player) list"
  isPermanent :: bool
  currentStartChar :: jstring
  usedSentences :: "jstring list"
  validationQueue :: "submission list"
  currentVote :: "vote option"
  messages :: "message list"

record choice =
  winnerNickname :: jstring
  choice_answer :: jstring
  choice_endTime :: nat
  timer :: nat

record socket =
  sock_id :: nat
  roomId :: "jstring option"
  sock_nickname :: "jstring option"

text \<open>The callbacks handed to \<^verbatim>\<open>setTimeout\<close>, with the variables they close over.\<close>

datatype timer_action =
    VoteTimeout jstring jstring
  | ReconnectTimeout jstring jstring jstring
  | ChoiceTimeout jstring jstring
  | SocketDisconnect nat

datatype target = ToSocket nat | ToRoom jstring | ToLobby | ToAdmin

datatype emitted =
    NewMessage message
  | GameStateUpdate
  | RoomListUpdate
  | AdminDataUpdate
  | JoinError
  | ReconnectError
  | JoinSuccess jstring
  | VoteInProgress jstring
  | Kicked
  | RoomClosed

record server =
  rooms :: "jstring \<Rightarrow> room option"
  localCache :: "jstring list"
  reconnectTimeouts :: "jstring \<Rightarrow> nat option"
  choiceTimeouts :: "jstring \<Rightarrow> choice option"
  timers :: "nat \<Rightarrow> (nat \<times> timer_action) option"
  nextTimer :: nat
  now :: nat
  sockets :: "nat \<Rightarrow> socket option"
  outbox :: "(target \<times> emitted) list"

subsection \<open>Strings, timers and broadcasts\<close>

definition normalizeSentence :: "unicode \<Rightarrow> jstring \<Rightarrow> jstring" where
  "normalizeSentence U sentence = filter (\<lambda>c. \<not> (is_space U c \<or> is_punct U c)) sentence"

definition trim :: "unicode \<Rightarrow> jstring \<Rightarrow> jstring" where
  "trim U s = rev (dropWhile (is_space U) (rev (dropWhile (is_space U) s)))"

definition illegalChars :: "unicode \<Rightarrow> jstring \<Rightarrow> bool" where
  "illegalChars U s = (\<exists>c \<in> set s. is_space U c \<or> is_punct U c)"

fun str_includes :: "jstring \<Rightarrow> jstring \<Rightarrow> bool" where
  "str_includes [] needle = (needle = [])"
| "str_includes (c # cs) needle =
     (take (length needle) (c # cs) = needle \<or> str_includes cs needle)"

definition truthy :: "jstring option \<Rightarrow> bool" where
  "truthy v = (case v of None \<Rightarrow> False | Some s \<Rightarrow> s \<noteq> [])"

definition valid_str :: jstring where
  "valid_str = [118, 97, 108, 105, 100]"

definition setTimeout :: "timer_action \<Rightarrow> nat \<Rightarrow> server \<Rightarrow> nat \<times> server" where
  "setTimeout act delay s =
     (nextTimer s,
      s\<lparr>timers := (timers s)(nextTimer s \<mapsto> (now s + delay, act)),
        nextTimer := Suc (nextTimer s)\<rparr>)"

definition clearTimeout :: "nat option \<Rightarrow> server \<Rightarrow> server" where
  "clearTimeout h s =
     (case h of None \<Rightarrow> s | Some t \<Rightarrow> s\<lparr>timers := (timers s)(t := None)\<rparr>)"

definition clearTimeouts :: "nat list \<Rightarrow> server \<Rightarrow> server" where
  "clearTimeouts ts s = fold (\<lambda>t. clearTimeout (Some t)) ts s"

definition emit :: "target \<Rightarrow> emitted \<Rightarrow> server \<Rightarrow> server" where
  "emit tgt e s = s\<lparr>outbox := outbox s @ [(tgt, e)]\<rparr>"

definition upd_room :: "jstring \<Rightarrow> (room \<Rightarrow> room) \<Rightarrow> server \<Rightarrow> server" where
  "upd_room rid f s =
     (case rooms s rid of None \<Rightarrow> s
      | Some r \<Rightarrow> s\<lparr>rooms := (rooms s)(rid \<mapsto> f r)\<rparr>)"

definition push_message :: "message \<Rightarrow> message list \<Rightarrow> message list" where
  "push_message m ms = (let ms' = ms @ [m] in if length ms' > 50 then tl ms' else ms')"

definition broadcastRoomList :: "server \<Rightarrow> server" where
  "broadcastRoomList s = emit ToAdmin AdminDataUpdate (emit ToLobby RoomListUpdate s)"

definition broadcastGameState :: "jstring \<Rightarrow> server \<Rightarrow> server" where
  "broadcastGameState rid s =
     emit ToAdmin AdminDataUpdate
       (case rooms s rid of None \<Rightarrow> s | Some r \<Rightarrow> emit (ToRoom rid) GameStateUpdate s)"

definition sendPrivateMessage :: "socket \<Rightarrow> msg_content \<Rightarrow> server \<Rightarrow> server" where
  "sendPrivateMessage sock c s =
     emit (ToSocket (sock_id sock))
       (NewMessage \<lparr>content = c, className = PrivateMessage, timestamp = now s\<rparr>) s"

definition broadcastMessage :: "jstring \<Rightarrow> msg_content \<Rightarrow> server \<Rightarrow> server" where
  "broadcastMessage rid c s =
     (case rooms s rid of None \<Rightarrow> s
      | Some r \<Rightarrow>
          (let m = \<lparr>content = c, className = GameMessage, timestamp = now s\<rparr>
           in emit (ToRoom rid) (NewMessage m)
                (upd_room rid (\<lambda>r. r\<lparr>messages := push_message m (messages r)\<rparr>) s)))"

subsection \<open>Rooms and players\<close>

definition removePlayerFromRoom :: "jstring \<Rightarrow> jstring \<Rightarrow> server \<Rightarrow> bool \<times> server" where
  "removePlayerFromRoom rid nick s =
     (case rooms s rid of None \<Rightarrow> (False, s)
      | Some room \<Rightarrow>
          (case map_of (players room) nick of None \<Rightarrow> (False, s)
           | Some p \<Rightarrow>
               (let ps = AList.delete nick (players room);
                    s1 = s\<lparr>rooms := (rooms s)(rid \<mapsto> room\<lparr>players := ps\<rparr>),
                           reconnectTimeouts := (reconnectTimeouts s)(nick := None)\<rparr>
                in if ps = [] \<and> \<not> isPermanent room
                   then (True, s1\<lparr>rooms := (rooms s1)(rid := None)\<rparr>)
                   else (False, s1))))"

definition set_socket :: "nat \<Rightarrow> jstring \<Rightarrow> jstring \<Rightarrow> server \<Rightarrow> server" where
  "set_socket sid rid nick s =
     s\<lparr>sockets := (sockets s)
         (sid \<mapsto> \<lparr>sock_id = sid, roomId = Some rid, sock_nickname = Some nick\<rparr>)\<rparr>"

subsection \<open>Voting, queue processing and acceptance\<close>

fun voteTimers ::
  "jstring \<Rightarrow> jstring list \<Rightarrow> (jstring \<times> nat) list \<Rightarrow> server \<Rightarrow> (jstring \<times> nat) list \<times> server"
where
  "voteTimers rid [] tos s = (tos, s)"
| "voteTimers rid (n # ns) tos s =
     (let (t, s') = setTimeout (VoteTimeout rid n) 15000 s
      in voteTimers rid ns (AList.update n t tos) s')"

definition startPlayerVote :: "jstring \<Rightarrow> submission \<Rightarrow> server \<Rightarrow> server" where
  "startPlayerVote rid sub s =
     (case rooms s rid of None \<Rightarrow> s
      | Some room \<Rightarrow>
          (let onlinePlayers = filter online (map snd (players room));
               vs = map nickname (filter (\<lambda>p. nickname p \<noteq> sub_nickname sub) onlinePlayers);
               voteEndTime = now s + 15000;
               (tos, s1) = voteTimers rid vs [] s
           in broadcastGameState rid
                (upd_room rid (\<lambda>r. r\<lparr>currentVote :=
                    Some \<lparr>submission = sub, votes = [], endTime = voteEndTime,
                          voters = vs, timeouts = tos\<rparr>\<rparr>) s1)))"

definition open_choice :: "jstring \<Rightarrow> jstring \<Rightarrow> jstring \<Rightarrow> server \<Rightarrow> server" where
  "open_choice rid winner ans s =
     (let choiceEndTime = now s + 15000;
          (t, s1) = setTimeout (ChoiceTimeout rid ans) 15000 s
      in s1\<lparr>choiceTimeouts := (choiceTimeouts s1)
             (rid \<mapsto> \<lparr>winnerNickname = winner, choice_answer = ans,
                       choice_endTime = choiceEndTime, timer = t\<rparr>)\<rparr>)"

definition push_used :: "jstring \<Rightarrow> jstring list \<Rightarrow> jstring list" where
  "push_used x xs = (let ys = xs @ [x] in if length ys > 50 then tl ys else ys)"

function processValidationQueue :: "unicode \<Rightarrow> jstring \<Rightarrow> server \<Rightarrow> error + server"
  and handleCorrectAnswer :: "unicode \<Rightarrow> jstring \<Rightarrow> submission \<Rightarrow> server \<Rightarrow> error + server"
where
  "processValidationQueue U rid s =
     (case rooms s rid of None \<Rightarrow> Inr s
      | Some room \<Rightarrow>
          if currentVote room \<noteq> None \<or> validationQueue room = [] then Inr s
          else
            (let sub = hd (validationQueue room);
                 s1 = broadcastMessage rid (MsgVerifying (answer sub) (sub_nickname sub))
                        (broadcastGameState rid s);
                 normalizedKey = normalizeSentence U (answer sub)
             in if normalizedKey \<in> set (localCache s1)
                then handleCorrectAnswer U rid sub
                       (broadcastMessage rid (MsgCacheHit (answer sub))
                          (upd_room rid (\<lambda>r. r\<lparr>validationQueue := tl (validationQueue r)\<rparr>) s1))
                else Inr (startPlayerVote rid sub
                            (broadcastMessage rid (MsgToVote (answer sub)) s1))))"
| "handleCorrectAnswer U rid sub s =
     (case rooms s rid of None \<Rightarrow> Inl TypeError
      | Some room \<Rightarrow>
          (case map_of (players room) (sub_nickname sub) of
             None \<Rightarrow>
               processValidationQueue U rid
                 (broadcastGameState rid (upd_room rid (\<lambda>r. r\<lparr>validationQueue := []\<rparr>) s))
           | Some winnerPlayer \<Rightarrow>
               Inr (broadcastGameState rid
                 (open_choice rid (nickname winnerPlayer) (answer sub)
                   (upd_room rid (\<lambda>r. r\<lparr>
                       players := AList.update (sub_nickname sub)
                                    (winnerPlayer\<lparr>score := score winnerPlayer + 1\<rparr>) (players r),
                       validationQueue := [],
                       usedSentences :=
                         push_used (normalizeSentence U (answer sub)) (usedSentences r)\<rparr>) s)))))"
  by pat_completeness auto

termination
  by (relation "measure (\<lambda>x. case x of
          Inl (U, rid, s) \<Rightarrow>
            (case rooms s rid of None \<Rightarrow> 0
             | Some r \<Rightarrow> if validationQueue r = [] then 0 else 2)
        | Inr (U, rid, sub, s) \<Rightarrow> 1)")
     (auto simp: upd_room_def broadcastGameState_def emit_def split: option.splits)

declare processValidationQueue.simps [simp del] handleCorrectAnswer.simps [simp del]

definition upd_vote :: "jstring \<Rightarrow> (vote \<Rightarrow> vote) \<Rightarrow> server \<Rightarrow> server" where
  "upd_vote rid f s = upd_room rid (\<lambda>r. r\<lparr>currentVote := map_option f (currentVote r)\<rparr>) s"

definition cache_add :: "jstring \<Rightarrow> server \<Rightarrow> server" where
  "cache_add k s =
     (if k \<in> set (localCache s) then s else s\<lparr>localCache := localCache s @ [k]\<rparr>)"

definition validVotes :: "(jstring \<times> jstring) list \<Rightarrow> nat" where
  "validVotes voteData = length (filter (\<lambda>v. v = valid_str) (map snd voteData))"

definition handleVoteEnd :: "unicode \<Rightarrow> jstring \<Rightarrow> server \<Rightarrow> error + server" where
  "handleVoteEnd U rid s =
     (case rooms s rid of None \<Rightarrow> Inr s
      | Some room \<Rightarrow>
          (case currentVote room of None \<Rightarrow> Inr s
           | Some v \<Rightarrow>
               (let s1 = clearTimeouts (map snd (timeouts v)) s;
                    sub = submission v;
                    totalVoters = length (voters v);
                    s2 = upd_room rid (\<lambda>r. r\<lparr>currentVote := None,
                                               validationQueue := tl (validationQueue r)\<rparr>) s1;
                    normalizedKey = normalizeSentence U (answer sub)
                in if totalVoters = 0
                   then handleCorrectAnswer U rid sub
                          (cache_add normalizedKey
                             (broadcastMessage rid (MsgAutoPass (answer sub)) s2))
                   else
                     (let threshold = totalVoters div 2 + 1
                      in if validVotes (votes v) \<ge> threshold
                         then handleCorrectAnswer U rid sub
                                (cache_add normalizedKey
                                   (broadcastMessage rid (MsgVotePassed (answer sub)) s2))
                         else processValidationQueue U rid
                                (broadcastGameState rid
                                   (broadcastMessage rid (MsgVoteFailed (answer sub)) s2))))))"

definition vote_complete :: "jstring \<Rightarrow> server \<Rightarrow> bool" where
  "vote_complete rid s =
     (case rooms s rid of None \<Rightarrow> False
      | Some r \<Rightarrow>
          (case currentVote r of None \<Rightarrow> False
           | Some v \<Rightarrow> length (votes v) \<ge> length (voters v)))"

definition handleVoteTimeout :: "unicode \<Rightarrow> jstring \<Rightarrow> jstring \<Rightarrow> server \<Rightarrow> error + server" where
  "handleVoteTimeout U rid nick s =
     (case rooms s rid of None \<Rightarrow> Inr s
      | Some room \<Rightarrow>
          (case currentVote room of None \<Rightarrow> Inr s
           | Some v \<Rightarrow>
               if truthy (map_of (votes v) nick) then Inr s
               else
                 (let s1 = upd_vote rid (\<lambda>v. v\<lparr>votes := AList.update nick valid_str (votes v),
                                                timeouts := AList.delete nick (timeouts v)\<rparr>) s;
                      s2 = broadcastGameState rid (broadcastMessage rid (MsgVoteTimeout nick) s1)
                  in if vote_complete rid s2 then handleVoteEnd U rid s2 else Inr s2)))"

definition handlePlayerVote ::
  "unicode \<Rightarrow> socket \<Rightarrow> jstring \<Rightarrow> jstring \<Rightarrow> server \<Rightarrow> error + server"
where
  "handlePlayerVote U sock rid vote s =
     (case rooms s rid of None \<Rightarrow> Inr s
      | Some room \<Rightarrow>
          (case currentVote room of None \<Rightarrow> Inr s
           | Some v \<Rightarrow>
               (case sock_nickname sock of None \<Rightarrow> Inr s
                | Some nick \<Rightarrow>
                    if nick = [] \<or> map_of (players room) nick = None then Inr s
                    else if nick \<in> set (voters v) \<and> \<not> truthy (map_of (votes v) nick)
                    then
                      (let s1 = clearTimeout (map_of (timeouts v) nick) s;
                           s2 = upd_vote rid (\<lambda>v. v\<lparr>timeouts := AList.delete nick (timeouts v),
                                                     votes := AList.update nick vote (votes v)\<rparr>) s1;
                           s3 = broadcastGameState rid (broadcastMessage rid (MsgVoted nick) s2)
                       in if vote_complete rid s3 then handleVoteEnd U rid s3 else Inr s3)
                    else Inr s)))"

subsection \<open>Choosing the next start character\<close>

definition startNewRound :: "jstring \<Rightarrow> jstring \<Rightarrow> jstring \<Rightarrow> server \<Rightarrow> server" where
  "startNewRound rid newChar chooserId s =
     (case rooms s rid of None \<Rightarrow> s
      | Some room \<Rightarrow>
          broadcastGameState rid
            (broadcastMessage rid (MsgNewRound chooserId newChar)
               (upd_room rid (\<lambda>r. r\<lparr>currentStartChar := newChar\<rparr>) s)))"

definition system_str :: jstring where
  "system_str = [31995, 32479]"

definition default_char :: jstring where
  "default_char = [22825]"

definition choiceTimeoutFires :: "unicode \<Rightarrow> jstring \<Rightarrow> jstring \<Rightarrow> server \<Rightarrow> server" where
  "choiceTimeoutFires U rid ans s =
     (case choiceTimeouts s rid of None \<Rightarrow> s
      | Some c \<Rightarrow>
          (let s1 = s\<lparr>choiceTimeouts := (choiceTimeouts s)(rid := None)\<rparr>;
               s2 = broadcastMessage rid (MsgChoiceTimeout (winnerNickname c)) s1;
               randomChar = (case normalizeSentence U ans of [] \<Rightarrow> default_char | c # cs \<Rightarrow> [c])
           in startNewRound rid randomChar system_str s2))"

definition handleCharChoice :: "socket \<Rightarrow> jstring \<Rightarrow> jstring \<Rightarrow> server \<Rightarrow> server" where
  "handleCharChoice sock rid char s =
     (case rooms s rid of None \<Rightarrow> s
      | Some room \<Rightarrow>
          (case choiceTimeouts s rid of None \<Rightarrow> s
           | Some c \<Rightarrow>
               if sock_nickname sock = Some (winnerNickname c)
               then startNewRound rid char (winnerNickname c)
                      ((clearTimeout (Some (timer c)) s)
                         \<lparr>choiceTimeouts := (choiceTimeouts s)(rid := None)\<rparr>)
               else s))"

subsection \<open>Submission intake and withdrawal\<close>

definition handlePlayerInput ::
  "unicode \<Rightarrow> socket \<Rightarrow> jstring \<Rightarrow> jstring \<Rightarrow> server \<Rightarrow> error + server"
where
  "handlePlayerInput U sock rid ans s =
     (case sock_nickname sock of None \<Rightarrow> Inr s
      | Some nick \<Rightarrow>
          if nick = [] then Inr s
          else
            (case rooms s rid of None \<Rightarrow> Inl TypeError
             | Some room \<Rightarrow>
                 if map_of (players room) nick = None then Inr s
                 else if \<exists>q \<in> set (validationQueue room). sub_nickname q = nick
                 then Inr (sendPrivateMessage sock HintAlreadySubmitted s)
                 else
                   (let trimmedAnswer = trim U ans
                    in if trimmedAnswer = [] then Inr s
                       else if illegalChars U trimmedAnswer
                       then Inr (sendPrivateMessage sock HintIllegalChars s)
                       else if normalizeSentence U trimmedAnswer \<in> set (usedSentences room)
                       then Inr (sendPrivateMessage sock (HintRecentlyUsed trimmedAnswer) s)
                       else if \<not> str_includes trimmedAnswer (currentStartChar room)
                       then Inr (sendPrivateMessage sock HintNoStartChar s)
                       else processValidationQueue U rid
                              (broadcastGameState rid
                                 (upd_room rid (\<lambda>r. r\<lparr>validationQueue := validationQueue r @
                                     [\<lparr>answer = trimmedAnswer, sub_nickname = nick\<rparr>]\<rparr>) s)))))"

definition withdrawAnswer :: "unicode \<Rightarrow> socket \<Rightarrow> server \<Rightarrow> error + server" where
  "withdrawAnswer U sock s =
     (case roomId sock of None \<Rightarrow> Inr s
      | Some rid \<Rightarrow>
     (case sock_nickname sock of None \<Rightarrow> Inr s
      | Some nick \<Rightarrow>
          if rid = [] \<or> nick = [] then Inr s
          else
            (case rooms s rid of None \<Rightarrow> Inl TypeError
             | Some room \<Rightarrow>
                 (let isVotingOnThis =
                        (case currentVote room of None \<Rightarrow> False
                         | Some v \<Rightarrow> sub_nickname (submission v) = nick);
                      q = filter (\<lambda>sub. sub_nickname sub \<noteq> nick) (validationQueue room);
                      s1 = upd_room rid (\<lambda>r. r\<lparr>validationQueue := q\<rparr>) s
                  in if length q < length (validationQueue room)
                        \<and> map_of (players room) nick \<noteq> None
                     then
                       (let s2 = broadcastMessage rid (MsgWithdrew nick) s1;
                            s3 = (if isVotingOnThis
                                  then broadcastMessage rid MsgVoteAborted
                                         (upd_room rid (\<lambda>r. r\<lparr>currentVote := None\<rparr>)
                                            (clearTimeouts
                                               (case currentVote room of None \<Rightarrow> []
                                                | Some v \<Rightarrow> map snd (timeouts v)) s2))
                                  else s2)
                        in processValidationQueue U rid (broadcastGameState rid s3))
                     else Inr s1))))"

subsection \<open>Joining, reconnecting and leaving\<close>

definition reconnectPlayer :: "socket \<Rightarrow> jstring \<Rightarrow> jstring \<Rightarrow> server \<Rightarrow> server" where
  "reconnectPlayer sock rid nick s =
     (case rooms s rid of None \<Rightarrow> emit (ToSocket (sock_id sock)) ReconnectError s
      | Some room \<Rightarrow>
          (case map_of (players room) nick of
             None \<Rightarrow> emit (ToSocket (sock_id sock)) ReconnectError s
           | Some playerData \<Rightarrow>
               if online playerData then emit (ToSocket (sock_id sock)) ReconnectError s
               else
                 (let s1 = (clearTimeout (reconnectTimeouts s nick) s)
                             \<lparr>reconnectTimeouts := (reconnectTimeouts s)(nick := None)\<rparr>;
                      s2 = upd_room rid (\<lambda>r. r\<lparr>players := AList.update nick
                             (playerData\<lparr>online := True, socketId := Some (sock_id sock),
                                          disconnectTime := None\<rparr>) (players r)\<rparr>) s1;
                      s3 = set_socket (sock_id sock) rid nick s2;
                      s4 = broadcastMessage rid (MsgReconnected nick)
                             (emit (ToSocket (sock_id sock)) (JoinSuccess rid) s3);
                      s5 = (case currentVote room of None \<Rightarrow> s4
                            | Some v \<Rightarrow>
                                if nick \<in> set (voters v)
                                then
                                  (if \<not> truthy (map_of (votes v) nick)
                                   then
                                     (let (t, s') = setTimeout (VoteTimeout rid nick) 15000
                                                      (clearTimeout (map_of (timeouts v) nick) s4)
                                      in upd_vote rid
                                           (\<lambda>v. v\<lparr>timeouts := AList.update nick t (timeouts v)\<rparr>) s')
                                   else s4)
                                else emit (ToSocket (sock_id sock))
                                       (VoteInProgress (answer (submission v))) s4)
                  in broadcastRoomList (broadcastGameState rid s5))))"

text \<open>
  The names of the properties that the runtime gives \<^verbatim>\<open>Object.prototype\<close>
  (ECMAScript 2023, 20.1.3 and B.2.2): \<^verbatim>\<open>constructor\<close>, \<^verbatim>\<open>__defineGetter__\<close>, \<^verbatim>\<open>__defineSetter__\<close>,
  \<^verbatim>\<open>hasOwnProperty\<close>, \<^verbatim>\<open>__lookupGetter__\<close>, \<^verbatim>\<open>__lookupSetter__\<close>,
  \<^verbatim>\<open>isPrototypeOf\<close>, \<^verbatim>\<open>propertyIsEnumerable\<close>, \<^verbatim>\<open>toString\<close>, \<^verbatim>\<open>valueOf\<close>,
  \<^verbatim>\<open>__proto__\<close> and \<^verbatim>\<open>toLocaleString\<close>. Under each of them \<^verbatim>\<open>room.players[nickname]\<close>
  is a function, or \<^verbatim>\<open>Object.prototype\<close> itself, and so truthy, also when the room has
  no player of that name: \<^verbatim>\<open>joinRoom\<close> then takes the property for the record of an
  offline player and calls \<^verbatim>\<open>reconnectPlayer\<close>. Three of the names have at most ten
  characters and pass the length test of \<^verbatim>\<open>joinRoom\<close>: \<^verbatim>\<open>toString\<close>,
  \<^verbatim>\<open>valueOf\<close> and \<^verbatim>\<open>__proto__\<close>. The model follows \<^verbatim>\<open>joinRoom\<close> up to
  that call and shows that no player is created; what \<^verbatim>\<open>reconnectPlayer\<close> then does
  with the inherited property (it takes it for the record and writes
  \<^verbatim>\<open>online\<close> and \<^verbatim>\<open>socketId\<close> to it) is beyond the own properties that
  \<open>reconnectPlayer\<close> looks at here.
\<close>

definition object_prototype_names :: "jstring list" where
  "object_prototype_names =
     [[99, 111, 110, 115, 116, 114, 117, 99, 116, 111, 114],
      [95, 95, 100, 101, 102, 105, 110, 101, 71, 101, 116, 116, 101, 114, 95, 95],
      [95, 95, 100, 101, 102, 105, 110, 101, 83, 101, 116, 116, 101, 114, 95, 95],
      [104, 97, 115, 79, 119, 110, 80, 114, 111, 112, 101, 114, 116, 121],
      [95, 95, 108, 111, 111, 107, 117, 112, 71, 101, 116, 116, 101, 114, 95, 95],
      [95, 95, 108, 111, 111, 107, 117, 112, 83, 101, 116, 116, 101, 114, 95, 95],
      [105, 115, 80, 114, 111, 116, 111, 116, 121, 112, 101, 79, 102],
      [112, 114, 111, 112, 101, 114, 116, 121, 73, 115, 69, 110, 117, 109, 101, 114, 97, 98,
       108, 101],
      [116, 111, 83, 116, 114, 105, 110, 103],
      [118, 97, 108, 117, 101, 79, 102],
      [95, 95, 112, 114, 111, 116, 111, 95, 95],
      [116, 111, 76, 111, 99, 97, 108, 101, 83, 116, 114, 105, 110, 103]]"

definition joinRoom :: "unicode \<Rightarrow> socket \<Rightarrow> jstring \<Rightarrow> jstring \<Rightarrow> server \<Rightarrow> error + server" where
  "joinRoom U sock rid nick s =
     (if nick = [] \<or> length nick > 10 \<or> length nick < 1
      then Inr (emit (ToSocket (sock_id sock)) JoinError s)
      else
        (case rooms s rid of None \<Rightarrow> Inl TypeError
         | Some room \<Rightarrow>
             (let isTakenOnline =
                    (\<exists>p \<in> set (map snd (players room)).
                        toLowerCase U (nickname p) = toLowerCase U nick \<and> online p)
              in if isTakenOnline then Inr (emit (ToSocket (sock_id sock)) JoinError s)
                 else
                   (case map_of (players room) nick of
                      Some offlinePlayer \<Rightarrow> Inr (reconnectPlayer sock rid nick s)
                    | None \<Rightarrow>
                      if nick \<in> set object_prototype_names
                      then Inr (reconnectPlayer sock rid nick s)
                      else
                        (let s1 = set_socket (sock_id sock) rid nick s;
                             s2 = upd_room rid (\<lambda>r. r\<lparr>players := AList.update nick
                                    \<lparr>nickname = nick, score = 0, online = True,
                                     socketId = Some (sock_id sock), disconnectTime = None\<rparr>
                                    (players r)\<rparr>) s1;
                             s3 = broadcastMessage rid (MsgWelcome nick)
                                    (emit (ToSocket (sock_id sock)) (JoinSuccess rid) s2);
                             s4 = (case currentVote room of None \<Rightarrow> s3
                                   | Some v \<Rightarrow> emit (ToSocket (sock_id sock))
                                                (VoteInProgress (answer (submission v))) s3)
                         in Inr (broadcastRoomList (broadcastGameState rid s4)))))))"

definition start_char :: jstring where
  "start_char = [26376]"

definition createRoom ::
  "unicode \<Rightarrow> socket \<Rightarrow> jstring \<Rightarrow> jstring \<Rightarrow> jstring \<Rightarrow> server \<Rightarrow> error + server"
where
  "createRoom U sock roomName nick randomId s =
     (let rid = (if roomName = [] then randomId else roomName)
      in case rooms s rid of
           Some r \<Rightarrow> Inr (emit (ToSocket (sock_id sock)) JoinError s)
         | None \<Rightarrow>
             joinRoom U sock rid nick
               (s\<lparr>rooms := (rooms s)(rid \<mapsto>
                    \<lparr>room_id = rid, room_name = rid, players = [], isPermanent = False,
                     currentStartChar = start_char, usedSentences = [],
                     validationQueue = [], currentVote = None, messages = []\<rparr>)\<rparr>))"

definition reconnectTimeoutFires :: "jstring \<Rightarrow> jstring \<Rightarrow> jstring \<Rightarrow> server \<Rightarrow> server" where
  "reconnectTimeoutFires rid nick pn s =
     (case rooms s rid of None \<Rightarrow> s
      | Some room \<Rightarrow>
          (case map_of (players room) nick of None \<Rightarrow> s
           | Some p \<Rightarrow>
               if online p then s
               else
                 (let (destroyed, s1) = removePlayerFromRoom rid nick s
                  in broadcastRoomList
                       (if destroyed then s1
                        else broadcastGameState rid (broadcastMessage rid (MsgDropped pn) s1)))))"

definition handlePlayerDisconnect :: "unicode \<Rightarrow> socket \<Rightarrow> bool \<Rightarrow> server \<Rightarrow> error + server" where
  "handlePlayerDisconnect U sock graceful s =
     (case roomId sock of None \<Rightarrow> Inr s
      | Some rid \<Rightarrow>
     (case sock_nickname sock of None \<Rightarrow> Inr s
      | Some nick \<Rightarrow>
          if rid = [] \<or> nick = [] then Inr s
          else
     (case rooms s rid of None \<Rightarrow> Inr s
      | Some room \<Rightarrow>
     (case map_of (players room) nick of None \<Rightarrow> Inr s
      | Some player \<Rightarrow>
          (let pn = nickname player;
               offline = upd_room rid (\<lambda>r. r\<lparr>players := AList.update nick
                           (player\<lparr>online := False, disconnectTime := Some (now s)\<rparr>)
                           (players r)\<rparr>) s
           in if \<not> graceful \<and> isPermanent room
              then Inr (broadcastGameState rid (broadcastMessage rid (MsgLostConnection pn) offline))
              else
                (let s1 =
                       (if graceful
                        then (if isPermanent room
                              then broadcastMessage rid (MsgLeft pn) offline
                              else snd (removePlayerFromRoom rid nick
                                          (broadcastMessage rid (MsgLeft pn) s)))
                        else (let (t, s') = setTimeout (ReconnectTimeout rid nick pn) 30000
                                              (broadcastMessage rid (MsgLostConnection pn) offline)
                              in s'\<lparr>reconnectTimeouts := (reconnectTimeouts s')(nick \<mapsto> t)\<rparr>));
                     finish = (\<lambda>s. broadcastRoomList
                                 (case rooms s rid of None \<Rightarrow> s
                                  | Some r \<Rightarrow> broadcastGameState rid s))
                 in case currentVote room of None \<Rightarrow> Inr (finish s1)
                    | Some v \<Rightarrow>
                        if pn \<in> set (voters v) \<and> \<not> truthy (map_of (votes v) pn)
                        then
                          (let s2 = clearTimeout (map_of (timeouts v) pn) s1;
                               s3 = upd_vote rid
                                      (\<lambda>v. v\<lparr>timeouts := AList.delete pn (timeouts v),
                                             votes := AList.update pn valid_str (votes v)\<rparr>) s2;
                               s4 = broadcastMessage rid (MsgAutoValid pn) s3
                           in if length (AList.update pn valid_str (votes v)) \<ge> length (voters v)
                              then (case handleVoteEnd U rid s4 of Inl e \<Rightarrow> Inl e
                                    | Inr s5 \<Rightarrow> Inr (finish s5))
                              else Inr (finish s4))
                        else Inr (finish s1)))))))"

subsection \<open>The admin panel\<close>

definition adminTogglePermanent :: "jstring \<Rightarrow> server \<Rightarrow> server" where
  "adminTogglePermanent rid s = upd_room rid (\<lambda>r. r\<lparr>isPermanent := \<not> isPermanent r\<rparr>) s"

definition scheduleDisconnect :: "player \<Rightarrow> server \<Rightarrow> server" where
  "scheduleDisconnect p s =
     (case socketId p of None \<Rightarrow> s
      | Some sid \<Rightarrow>
          if online p \<and> sockets s sid \<noteq> None
          then snd (setTimeout (SocketDisconnect sid) 50 s) else s)"

definition adminDeleteRoom :: "jstring \<Rightarrow> server \<Rightarrow> server" where
  "adminDeleteRoom rid s =
     (case rooms s rid of None \<Rightarrow> s
      | Some room \<Rightarrow>
          (let s1 = emit (ToRoom rid) RoomClosed s;
               s2 = fold scheduleDisconnect (map snd (players room)) s1
           in broadcastRoomList (s2\<lparr>rooms := (rooms s2)(rid := None)\<rparr>)))"

definition adminCacheAdd :: "unicode \<Rightarrow> jstring \<Rightarrow> server \<Rightarrow> server" where
  "adminCacheAdd U sentence s =
     (let normalized = normalizeSentence U sentence
      in if normalized \<noteq> [] \<and> normalized \<notin> set (localCache s)
         then s\<lparr>localCache := sort (localCache s @ [normalized])\<rparr>
         else s)"

definition adminCacheDelete :: "unicode \<Rightarrow> jstring \<Rightarrow> server \<Rightarrow> server" where
  "adminCacheDelete U sentence s =
     s\<lparr>localCache := remove1 (normalizeSentence U sentence) (localCache s)\<rparr>"

definition adminKick :: "jstring \<Rightarrow> jstring \<Rightarrow> server \<Rightarrow> server" where
  "adminKick rid nick s =
     (case rooms s rid of None \<Rightarrow> s
      | Some room \<Rightarrow>
          (case map_of (players room) nick of None \<Rightarrow> s
           | Some p \<Rightarrow>
               (let s1 = (case socketId p of None \<Rightarrow> s
                          | Some sid \<Rightarrow>
                              if online p \<and> sockets s sid \<noteq> None
                              then snd (setTimeout (SocketDisconnect sid) 50
                                          (emit (ToSocket sid) Kicked s))
                              else s)
                in broadcastRoomList
                     (broadcastGameState rid (snd (removePlayerFromRoom rid nick s1))))))"

subsection \<open>Events\<close>

text \<open>
  One event is one turn of the event loop: a message from a connected socket, an admin
  request, a pending timer whose delay has passed, or the clock moving on. A socket that
  goes away (by itself or through \<^verbatim>\<open>socket.disconnect(true)\<close>) leaves the table of
  connected sockets and runs the \<^verbatim>\<open>disconnect\<close> handler.
\<close>

datatype event =
    Connect nat
  | CreateRoom nat jstring jstring jstring
  | JoinRoom nat jstring jstring
  | ReconnectPlayer nat jstring jstring
  | LeaveRoom nat
  | Disconnect nat
  | SubmitAnswer nat jstring
  | WithdrawAnswer nat
  | SubmitVote nat jstring
  | ChooseNewChar nat jstring
  | TimerFires nat
  | Advance nat
  | AdminTogglePermanent jstring
  | AdminDeleteRoom jstring
  | AdminCacheAdd jstring
  | AdminCacheDelete jstring
  | AdminKick jstring jstring

definition socketDisconnects :: "unicode \<Rightarrow> nat \<Rightarrow> server \<Rightarrow> error + server" where
  "socketDisconnects U sid s =
     (case sockets s sid of None \<Rightarrow> Inr s
      | Some sock \<Rightarrow>
          handlePlayerDisconnect U sock False (s\<lparr>sockets := (sockets s)(sid := None)\<rparr>))"

definition run_timer :: "unicode \<Rightarrow> timer_action \<Rightarrow> server \<Rightarrow> error + server" where
  "run_timer U act s =
     (case act of
        VoteTimeout rid nick \<Rightarrow> handleVoteTimeout U rid nick s
      | ReconnectTimeout rid nick pn \<Rightarrow> Inr (reconnectTimeoutFires rid nick pn s)
      | ChoiceTimeout rid ans \<Rightarrow> Inr (choiceTimeoutFires U rid ans s)
      | SocketDisconnect sid \<Rightarrow> socketDisconnects U sid s)"

definition timerFires :: "unicode \<Rightarrow> nat \<Rightarrow> server \<Rightarrow> error + server" where
  "timerFires U t s =
     (case timers s t of None \<Rightarrow> Inr s
      | Some (due, act) \<Rightarrow>
          if now s < due then Inr s
          else run_timer U act (s\<lparr>timers := (timers s)(t := None)\<rparr>))"

definition on_socket :: "nat \<Rightarrow> (socket \<Rightarrow> error + server) \<Rightarrow> server \<Rightarrow> error + server" where
  "on_socket sid h s = (case sockets s sid of None \<Rightarrow> Inr s | Some sock \<Rightarrow> h sock)"

definition step :: "unicode \<Rightarrow> event \<Rightarrow> server \<Rightarrow> error + server" where
  "step U e s =
     (case e of
        Connect sid \<Rightarrow>
          (case sockets s sid of
             None \<Rightarrow> Inr (s\<lparr>sockets := (sockets s)
                            (sid \<mapsto> \<lparr>sock_id = sid, roomId = None, sock_nickname = None\<rparr>)\<rparr>)
           | Some sock \<Rightarrow> Inr s)
      | CreateRoom sid roomName nick randomId \<Rightarrow>
          on_socket sid (\<lambda>sock. createRoom U sock roomName nick randomId s) s
      | JoinRoom sid rid nick \<Rightarrow>
          on_socket sid (\<lambda>sock.
            case rooms s rid of None \<Rightarrow> Inr (emit (ToSocket sid) JoinError s)
            | Some r \<Rightarrow> joinRoom U sock rid nick s) s
      | ReconnectPlayer sid rid nick \<Rightarrow>
          on_socket sid (\<lambda>sock. Inr (reconnectPlayer sock rid nick s)) s
      | LeaveRoom sid \<Rightarrow>
          on_socket sid (\<lambda>sock. handlePlayerDisconnect U sock True s) s
      | Disconnect sid \<Rightarrow> socketDisconnects U sid s
      | SubmitAnswer sid ans \<Rightarrow>
          on_socket sid (\<lambda>sock.
            case roomId sock of None \<Rightarrow> Inr s
            | Some rid \<Rightarrow> if rid = [] then Inr s else handlePlayerInput U sock rid ans s) s
      | WithdrawAnswer sid \<Rightarrow> on_socket sid (\<lambda>sock. withdrawAnswer U sock s) s
      | SubmitVote sid v \<Rightarrow>
          on_socket sid (\<lambda>sock.
            case roomId sock of None \<Rightarrow> Inr s
            | Some rid \<Rightarrow> if rid = [] then Inr s else handlePlayerVote U sock rid v s) s
      | ChooseNewChar sid c \<Rightarrow>
          on_socket sid (\<lambda>sock.
            case roomId sock of None \<Rightarrow> Inr s
            | Some rid \<Rightarrow> if rid = [] then Inr s else Inr (handleCharChoice sock rid c s)) s
      | TimerFires t \<Rightarrow> timerFires U t s
      | Advance d \<Rightarrow> Inr (s\<lparr>now := now s + d\<rparr>)
      | AdminTogglePermanent rid \<Rightarrow> Inr (adminTogglePermanent rid s)
      | AdminDeleteRoom rid \<Rightarrow> Inr (adminDeleteRoom rid s)
      | AdminCacheAdd sentence \<Rightarrow> Inr (adminCacheAdd U sentence s)
      | AdminCacheDelete sentence \<Rightarrow> Inr (adminCacheDelete U sentence s)
      | AdminKick rid nick \<Rightarrow> Inr (adminKick rid nick s))"

fun run :: "unicode \<Rightarrow> event list \<Rightarrow> server \<Rightarrow> error + server" where
  "run U [] s = Inr s"
| "run U (e # es) s = (case step U e s of Inl err \<Rightarrow> Inl err | Inr s' \<Rightarrow> run U es s')"

text \<open>The server after \<^verbatim>\<open>loadData\<close> found no data files: no rooms, an empty cache.\<close>

definition init :: server where
  "init = \<lparr>rooms = (\<lambda>rid. None), localCache = [], reconnectTimeouts = (\<lambda>n. None),
           choiceTimeouts = (\<lambda>rid. None), timers = (\<lambda>t. None), nextTimer = 0, now = 0,
           sockets = (\<lambda>sid. None), outbox = []\<rparr>"

text \<open>
  The tables used for concrete runs: the whitespace of ECMAScript, the punctuation of
  ASCII and the full-width comma and full stop, and lower case for A to Z.
\<close>

definition U0 :: unicode where
  "U0 = \<lparr>is_space = (\<lambda>c. c \<in> set [9, 10, 11, 12, 13, 32, 160, 12288]),
         is_punct = (\<lambda>c. c \<in> set [33, 34, 35, 37, 38, 39, 40, 41, 42, 44, 45, 46, 47, 58, 59,
                                      63, 64, 91, 92, 93, 95, 123, 125, 12289, 12290, 65292]),
         toLowerCase = map (\<lambda>c. if 65 \<le> c \<and> c \<le> 90 then c + 32 else c)\<rparr>"

subsection \<open>A concrete room\<close>

text \<open>
  Room \<open>R\<close> with the players \<open>A\<close> and \<open>B\<close>, both online. \<open>A\<close> has submitted
  a phrase that contains the start character, and \<open>B\<close> is voting on it, with timer 0
  running for \<open>B\<close>.
\<close>

definition room_R :: jstring where "room_R = [82]"
definition nick_A :: jstring where "nick_A = [65]"
definition nick_B :: jstring where "nick_B = [66]"
definition answer_X :: jstring where "answer_X = [26376, 88]"
definition answer_Y :: jstring where "answer_Y = [26376, 89]"

definition sub_A :: submission where
  "sub_A = \<lparr>answer = answer_X, sub_nickname = nick_A\<rparr>"

definition player_A :: player where
  "player_A = \<lparr>nickname = nick_A, score = 0, online = True, socketId = Some 1,
               disconnectTime = None\<rparr>"

definition player_B :: player where
  "player_B = \<lparr>nickname = nick_B, score = 0, online = True, socketId = Some 2,
               disconnectTime = None\<rparr>"

definition socket_A :: socket where
  "socket_A = \<lparr>sock_id = 1, roomId = Some room_R, sock_nickname = Some nick_A\<rparr>"

definition socket_B :: socket where
  "socket_B = \<lparr>sock_id = 2, roomId = Some room_R, sock_nickname = Some nick_B\<rparr>"

definition vote_A :: vote where
  "vote_A = \<lparr>submission = sub_A, votes = [], endTime = 15000, voters = [nick_B],
             timeouts = [(nick_B, 0)]\<rparr>"

definition voting_room :: room where
  "voting_room = \<lparr>room_id = room_R, room_name = room_R,
     players = [(nick_A, player_A), (nick_B, player_B)], isPermanent = False,
     currentStartChar = start_char, usedSentences = [], validationQueue = [sub_A],
     currentVote = Some vote_A, messages = []\<rparr>"

definition voting_state :: server where
  "voting_state = \<lparr>rooms = [room_R \<mapsto> voting_room], localCache = [],
     reconnectTimeouts = (\<lambda>n. None), choiceTimeouts = (\<lambda>rid. None),
     timers = [0 \<mapsto> (15000, VoteTimeout room_R nick_B)], nextTimer = 1, now = 0,
     sockets = [1 \<mapsto> socket_A, 2 \<mapsto> socket_B], outbox = []\<rparr>"

definition room_S :: jstring where "room_S = [83]"

text \<open>Nickname \<open>b\<close>, which differs from \<open>B\<close> in letter case only, and a third socket.\<close>

definition nick_b :: jstring where "nick_b = [98]"

definition socket_3 :: socket where
  "socket_3 = \<lparr>sock_id = 3, roomId = None, sock_nickname = None\<rparr>"

text \<open>A permanent room whose only record is the offline player \<open>b\<close>, with score 3.\<close>

definition player_b :: player where
  "player_b = \<lparr>nickname = nick_b, score = 3, online = False, socketId = Some 1,
               disconnectTime = Some 0\<rparr>"

definition offline_room :: room where
  "offline_room = \<lparr>room_id = room_R, room_name = room_R, players = [(nick_b, player_b)],
     isPermanent = True, currentStartChar = start_char, usedSentences = [],
     validationQueue = [], currentVote = None, messages = []\<rparr>"

definition offline_state :: server where
  "offline_state = \<lparr>rooms = [room_R \<mapsto> offline_room], localCache = [],
     reconnectTimeouts = (\<lambda>n. None), choiceTimeouts = (\<lambda>rid. None),
     timers = (\<lambda>t. None), nextTimer = 0, now = 0,
     sockets = [3 \<mapsto> socket_3], outbox = []\<rparr>"

text \<open>A third player \<open>C\<close>, and the vote \<^verbatim>\<open>invalid\<close>.\<close>

definition nick_C :: jstring where "nick_C = [67]"

definition invalid_str :: jstring where
  "invalid_str = [105, 110, 118, 97, 108, 105, 100]"

text \<open>
  The nickname \<^verbatim>\<open>toString\<close>, which is the name of a property of
  \<^verbatim>\<open>Object.prototype\<close>, and \<^verbatim>\<open>TOSTRING\<close>, which is not.
\<close>

definition nick_toString :: jstring where
  "nick_toString = [116, 111, 83, 116, 114, 105, 110, 103]"

definition nick_TOSTRING :: jstring where
  "nick_TOSTRING = [84, 79, 83, 84, 82, 73, 78, 71]"

text \<open>
  Room \<open>R\<close> after the admin has kicked \<open>A\<close> during the vote on the submission of
  \<open>A\<close>: \<open>B\<close> is the only player left and has not voted, timer 0 is the vote timer of
  \<open>B\<close>, and timer 1 will close the socket of \<open>A\<close>.
\<close>

definition last_voter_room :: room where
  "last_voter_room = voting_room\<lparr>players := [(nick_B, player_B)]\<rparr>"

definition last_voter_state :: server where
  "last_voter_state = \<lparr>rooms = [room_R \<mapsto> last_voter_room], localCache = [],
     reconnectTimeouts = (\<lambda>n. None), choiceTimeouts = (\<lambda>rid. None),
     timers = [0 \<mapsto> (15000, VoteTimeout room_R nick_B), 1 \<mapsto> (500, SocketDisconnect 1)],
     nextTimer = 2, now = 0,
     sockets = [1 \<mapsto> socket_A, 2 \<mapsto> socket_B], outbox = []\<rparr>"

subsection \<open>The properties to be checked\<close>

text \<open>No nickname has two entries in the validation queue of any room.\<close>

definition queue_inv :: "server \<Rightarrow> bool" where
  "queue_inv s =
     (\<forall>rid r. rooms s rid = Some r \<longrightarrow> distinct (map sub_nickname (validationQueue r)))"

text \<open>A room has a vote and a pending choice of the next start character at once.\<close>

definition overlap :: "server \<Rightarrow> jstring \<Rightarrow> bool" where
  "overlap s rid =
     (case rooms s rid of None \<Rightarrow> False
      | Some r \<Rightarrow> currentVote r \<noteq> None \<and> choiceTimeouts s rid \<noteq> None)"

text \<open>A queue that is not empty has its head under vote.\<close>

definition queue_waits_on_vote :: "server \<Rightarrow> bool" where
  "queue_waits_on_vote s =
     (\<forall>rid r. rooms s rid = Some r \<longrightarrow> validationQueue r \<noteq> [] \<longrightarrow> currentVote r \<noteq> None)"

definition waits_but :: "jstring \<Rightarrow> server \<Rightarrow> bool" where
  "waits_but rid s =
     (\<forall>rid' r. rid' \<noteq> rid \<longrightarrow> rooms s rid' = Some r \<longrightarrow>
        validationQueue r \<noteq> [] \<longrightarrow> currentVote r \<noteq> None)"


text \<open>
  An event is calm when it is not a submission to a room in which the choice of the next
  start character is pending. (The client disables its input field while
  \<^verbatim>\<open>isChoosingChar\<close> is set; the server does not check.) A sequence of events is calm
  when each event is calm in the state it meets.
\<close>

definition calm_event :: "event \<Rightarrow> server \<Rightarrow> bool" where
  "calm_event e s =
     (case e of
        SubmitAnswer sid ans \<Rightarrow>
          (case sockets s sid of None \<Rightarrow> True
           | Some sock \<Rightarrow>
               (case roomId sock of None \<Rightarrow> True
                | Some rid \<Rightarrow> choiceTimeouts s rid = None))
      | _ \<Rightarrow> True)"

fun calm :: "unicode \<Rightarrow> event list \<Rightarrow> server \<Rightarrow> bool" where
  "calm U [] s = True"
| "calm U (e # es) s =
     (calm_event e s \<and> (case step U e s of Inl err \<Rightarrow> True | Inr s' \<Rightarrow> calm U es s'))"

section \<open>What each helper does to each field\<close>

lemma rooms_emit [simp]: "rooms (emit t e s) = rooms s"
  and localCache_emit [simp]: "localCache (emit t e s) = localCache s"
  and reconnectTimeouts_emit [simp]: "reconnectTimeouts (emit t e s) = reconnectTimeouts s"
  and choiceTimeouts_emit [simp]: "choiceTimeouts (emit t e s) = choiceTimeouts s"
  and timers_emit [simp]: "timers (emit t e s) = timers s"
  and nextTimer_emit [simp]: "nextTimer (emit t e s) = nextTimer s"
  and now_emit [simp]: "now (emit t e s) = now s"
  and sockets_emit [simp]: "sockets (emit t e s) = sockets s"
  and outbox_emit [simp]: "outbox (emit t e s) = outbox s @ [(t, e)]"
  by (simp_all add: emit_def)

lemma rooms_upd_room [simp]:
  "rooms (upd_room rid f s) rid' = (if rid' = rid then map_option f (rooms s rid) else rooms s rid')"
  and localCache_upd_room [simp]: "localCache (upd_room rid f s) = localCache s"
  and reconnectTimeouts_upd_room [simp]: "reconnectTimeouts (upd_room rid f s) = reconnectTimeouts s"
  and choiceTimeouts_upd_room [simp]: "choiceTimeouts (upd_room rid f s) = choiceTimeouts s"
  and timers_upd_room [simp]: "timers (upd_room rid f s) = timers s"
  and nextTimer_upd_room [simp]: "nextTimer (upd_room rid f s) = nextTimer s"
  and now_upd_room [simp]: "now (upd_room rid f s) = now s"
  and sockets_upd_room [simp]: "sockets (upd_room rid f s) = sockets s"
  and outbox_upd_room [simp]: "outbox (upd_room rid f s) = outbox s"
  by (simp_all add: upd_room_def split: option.splits)

lemma rooms_broadcastGameState [simp]: "rooms (broadcastGameState rid s) = rooms s"
  and localCache_broadcastGameState [simp]: "localCache (broadcastGameState rid s) = localCache s"
  and reconnectTimeouts_broadcastGameState [simp]:
    "reconnectTimeouts (broadcastGameState rid s) = reconnectTimeouts s"
  and choiceTimeouts_broadcastGameState [simp]:
    "choiceTimeouts (broadcastGameState rid s) = choiceTimeouts s"
  and timers_broadcastGameState [simp]: "timers (broadcastGameState rid s) = timers s"
  and nextTimer_broadcastGameState [simp]: "nextTimer (broadcastGameState rid s) = nextTimer s"
  and now_broadcastGameState [simp]: "now (broadcastGameState rid s) = now s"
  and sockets_broadcastGameState [simp]: "sockets (broadcastGameState rid s) = sockets s"
  by (simp_all add: broadcastGameState_def split: option.splits)

lemma rooms_broadcastRoomList [simp]: "rooms (broadcastRoomList s) = rooms s"
  and localCache_broadcastRoomList [simp]: "localCache (broadcastRoomList s) = localCache s"
  and reconnectTimeouts_broadcastRoomList [simp]:
    "reconnectTimeouts (broadcastRoomList s) = reconnectTimeouts s"
  and choiceTimeouts_broadcastRoomList [simp]:
    "choiceTimeouts (broadcastRoomList s) = choiceTimeouts s"
  and timers_broadcastRoomList [simp]: "timers (broadcastRoomList s) = timers s"
  and nextTimer_broadcastRoomList [simp]: "nextTimer (broadcastRoomList s) = nextTimer s"
  and now_broadcastRoomList [simp]: "now (broadcastRoomList s) = now s"
  and sockets_broadcastRoomList [simp]: "sockets (broadcastRoomList s) = sockets s"
  by (simp_all add: broadcastRoomList_def)

lemma rooms_sendPrivateMessage [simp]: "rooms (sendPrivateMessage sock c s) = rooms s"
  and localCache_sendPrivateMessage [simp]: "localCache (sendPrivateMessage sock c s) = localCache s"
  and reconnectTimeouts_sendPrivateMessage [simp]:
    "reconnectTimeouts (sendPrivateMessage sock c s) = reconnectTimeouts s"
  and choiceTimeouts_sendPrivateMessage [simp]:
    "choiceTimeouts (sendPrivateMessage sock c s) = choiceTimeouts s"
  and timers_sendPrivateMessage [simp]: "timers (sendPrivateMessage sock c s) = timers s"
  and nextTimer_sendPrivateMessage [simp]: "nextTimer (sendPrivateMessage sock c s) = nextTimer s"
  and now_sendPrivateMessage [simp]: "now (sendPrivateMessage sock c s) = now s"
  and sockets_sendPrivateMessage [simp]: "sockets (sendPrivateMessage sock c s) = sockets s"
  by (simp_all add: sendPrivateMessage_def)

lemma rooms_broadcastMessage [simp]:
  "rooms (broadcastMessage rid c s) rid' =
     (if rid' = rid
      then map_option (\<lambda>r. r\<lparr>messages :=
             push_message \<lparr>content = c, className = GameMessage, timestamp = now s\<rparr>
               (messages r)\<rparr>) (rooms s rid)
      else rooms s rid')"
  and localCache_broadcastMessage [simp]: "localCache (broadcastMessage rid c s) = localCache s"
  and reconnectTimeouts_broadcastMessage [simp]:
    "reconnectTimeouts (broadcastMessage rid c s) = reconnectTimeouts s"
  and choiceTimeouts_broadcastMessage [simp]:
    "choiceTimeouts (broadcastMessage rid c s) = choiceTimeouts s"
  and timers_broadcastMessage [simp]: "timers (broadcastMessage rid c s) = timers s"
  and nextTimer_broadcastMessage [simp]: "nextTimer (broadcastMessage rid c s) = nextTimer s"
  and now_broadcastMessage [simp]: "now (broadcastMessage rid c s) = now s"
  and sockets_broadcastMessage [simp]: "sockets (broadcastMessage rid c s) = sockets s"
  by (simp_all add: broadcastMessage_def Let_def split: option.splits)

lemma rooms_clearTimeout [simp]: "rooms (clearTimeout h s) = rooms s"
  and localCache_clearTimeout [simp]: "localCache (clearTimeout h s) = localCache s"
  and reconnectTimeouts_clearTimeout [simp]:
    "reconnectTimeouts (clearTimeout h s) = reconnectTimeouts s"
  and choiceTimeouts_clearTimeout [simp]: "choiceTimeouts (clearTimeout h s) = choiceTimeouts s"
  and nextTimer_clearTimeout [simp]: "nextTimer (clearTimeout h s) = nextTimer s"
  and now_clearTimeout [simp]: "now (clearTimeout h s) = now s"
  and sockets_clearTimeout [simp]: "sockets (clearTimeout h s) = sockets s"
  and outbox_clearTimeout [simp]: "outbox (clearTimeout h s) = outbox s"
  and timers_clearTimeout [simp]:
    "timers (clearTimeout h s) = (case h of None \<Rightarrow> timers s | Some t \<Rightarrow> (timers s)(t := None))"
  by (simp_all add: clearTimeout_def split: option.splits)

lemma clearTimeouts_Nil [simp]: "clearTimeouts [] s = s"
  and clearTimeouts_Cons [simp]: "clearTimeouts (t # ts) s = clearTimeouts ts (clearTimeout (Some t) s)"
  by (simp_all add: clearTimeouts_def)

lemma rooms_clearTimeouts [simp]: "rooms (clearTimeouts ts s) = rooms s"
  by (induction ts arbitrary: s) simp_all
lemma localCache_clearTimeouts [simp]: "localCache (clearTimeouts ts s) = localCache s"
  by (induction ts arbitrary: s) simp_all
lemma reconnectTimeouts_clearTimeouts [simp]: "reconnectTimeouts (clearTimeouts ts s) = reconnectTimeouts s"
  by (induction ts arbitrary: s) simp_all
lemma choiceTimeouts_clearTimeouts [simp]: "choiceTimeouts (clearTimeouts ts s) = choiceTimeouts s"
  by (induction ts arbitrary: s) simp_all
lemma nextTimer_clearTimeouts [simp]: "nextTimer (clearTimeouts ts s) = nextTimer s"
  by (induction ts arbitrary: s) simp_all
lemma now_clearTimeouts [simp]: "now (clearTimeouts ts s) = now s"
  by (induction ts arbitrary: s) simp_all
lemma sockets_clearTimeouts [simp]: "sockets (clearTimeouts ts s) = sockets s"
  by (induction ts arbitrary: s) simp_all
lemma outbox_clearTimeouts [simp]: "outbox (clearTimeouts ts s) = outbox s"
  by (induction ts arbitrary: s) simp_all
lemma timers_clearTimeouts [simp]:
  "timers (clearTimeouts ts s) t = (if t \<in> set ts then None else timers s t)"
  by (induction ts arbitrary: s) auto

lemma rooms_setTimeout [simp]: "rooms (snd (setTimeout a d s)) = rooms s"
  and localCache_setTimeout [simp]: "localCache (snd (setTimeout a d s)) = localCache s"
  and reconnectTimeouts_setTimeout [simp]:
    "reconnectTimeouts (snd (setTimeout a d s)) = reconnectTimeouts s"
  and choiceTimeouts_setTimeout [simp]: "choiceTimeouts (snd (setTimeout a d s)) = choiceTimeouts s"
  and nextTimer_setTimeout [simp]: "nextTimer (snd (setTimeout a d s)) = Suc (nextTimer s)"
  and now_setTimeout [simp]: "now (snd (setTimeout a d s)) = now s"
  and sockets_setTimeout [simp]: "sockets (snd (setTimeout a d s)) = sockets s"
  and outbox_setTimeout [simp]: "outbox (snd (setTimeout a d s)) = outbox s"
  and timers_setTimeout [simp]:
    "timers (snd (setTimeout a d s)) = (timers s)(nextTimer s \<mapsto> (now s + d, a))"
  and fst_setTimeout [simp]: "fst (setTimeout a d s) = nextTimer s"
  by (simp_all add: setTimeout_def)

lemma set_socket_proj [simp]:
  "rooms (set_socket sid rid nick s) = rooms s"
  "localCache (set_socket sid rid nick s) = localCache s"
  "reconnectTimeouts (set_socket sid rid nick s) = reconnectTimeouts s"
  "choiceTimeouts (set_socket sid rid nick s) = choiceTimeouts s"
  "timers (set_socket sid rid nick s) = timers s"
  "nextTimer (set_socket sid rid nick s) = nextTimer s"
  "now (set_socket sid rid nick s) = now s"
  "outbox (set_socket sid rid nick s) = outbox s"
  by (simp_all add: set_socket_def)

lemma upd_vote_proj [simp]:
  "rooms (upd_vote rid f s) rid' =
     (if rid' = rid
      then map_option (\<lambda>r. r\<lparr>currentVote := map_option f (currentVote r)\<rparr>) (rooms s rid)
      else rooms s rid')"
  "localCache (upd_vote rid f s) = localCache s"
  "reconnectTimeouts (upd_vote rid f s) = reconnectTimeouts s"
  "choiceTimeouts (upd_vote rid f s) = choiceTimeouts s"
  "timers (upd_vote rid f s) = timers s"
  "nextTimer (upd_vote rid f s) = nextTimer s"
  "now (upd_vote rid f s) = now s"
  "sockets (upd_vote rid f s) = sockets s"
  "outbox (upd_vote rid f s) = outbox s"
  by (simp_all add: upd_vote_def)

lemma cache_add_proj [simp]:
  "rooms (cache_add k s) = rooms s"
  "reconnectTimeouts (cache_add k s) = reconnectTimeouts s"
  "choiceTimeouts (cache_add k s) = choiceTimeouts s"
  "timers (cache_add k s) = timers s"
  "nextTimer (cache_add k s) = nextTimer s"
  "now (cache_add k s) = now s"
  "sockets (cache_add k s) = sockets s"
  "outbox (cache_add k s) = outbox s"
  "localCache (cache_add k s) = (if k \<in> set (localCache s) then localCache s else localCache s @ [k])"
  by (simp_all add: cache_add_def)

lemma open_choice_proj [simp]:
  "rooms (open_choice rid w a s) = rooms s"
  "localCache (open_choice rid w a s) = localCache s"
  "reconnectTimeouts (open_choice rid w a s) = reconnectTimeouts s"
  "choiceTimeouts (open_choice rid w a s) = (choiceTimeouts s)
      (rid \<mapsto> \<lparr>winnerNickname = w, choice_answer = a, choice_endTime = now s + 15000,
                timer = nextTimer s\<rparr>)"
  "timers (open_choice rid w a s) = (timers s)(nextTimer s \<mapsto> (now s + 15000, ChoiceTimeout rid a))"
  "nextTimer (open_choice rid w a s) = Suc (nextTimer s)"
  "now (open_choice rid w a s) = now s"
  "sockets (open_choice rid w a s) = sockets s"
  "outbox (open_choice rid w a s) = outbox s"
  by (simp_all add: open_choice_def setTimeout_def Let_def)

lemma rooms_voteTimers [simp]: "rooms (snd (voteTimers rid ns tos s)) = rooms s"
  by (induction ns arbitrary: tos s) (simp_all add: split_beta)
lemma localCache_voteTimers [simp]: "localCache (snd (voteTimers rid ns tos s)) = localCache s"
  by (induction ns arbitrary: tos s) (simp_all add: split_beta)
lemma reconnectTimeouts_voteTimers [simp]:
  "reconnectTimeouts (snd (voteTimers rid ns tos s)) = reconnectTimeouts s"
  by (induction ns arbitrary: tos s) (simp_all add: split_beta)
lemma choiceTimeouts_voteTimers [simp]:
  "choiceTimeouts (snd (voteTimers rid ns tos s)) = choiceTimeouts s"
  by (induction ns arbitrary: tos s) (simp_all add: split_beta)
lemma now_voteTimers [simp]: "now (snd (voteTimers rid ns tos s)) = now s"
  by (induction ns arbitrary: tos s) (simp_all add: split_beta)
lemma sockets_voteTimers [simp]: "sockets (snd (voteTimers rid ns tos s)) = sockets s"
  by (induction ns arbitrary: tos s) (simp_all add: split_beta)
lemma outbox_voteTimers [simp]: "outbox (snd (voteTimers rid ns tos s)) = outbox s"
  by (induction ns arbitrary: tos s) (simp_all add: split_beta)

lemma startPlayerVote_proj [simp]:
  "localCache (startPlayerVote rid sub s) = localCache s"
  "reconnectTimeouts (startPlayerVote rid sub s) = reconnectTimeouts s"
  "choiceTimeouts (startPlayerVote rid sub s) = choiceTimeouts s"
  "now (startPlayerVote rid sub s) = now s"
  "sockets (startPlayerVote rid sub s) = sockets s"
  by (simp_all add: startPlayerVote_def Let_def split_beta split: option.splits)

lemma rooms_startPlayerVote:
  "rooms (startPlayerVote rid sub s) rid' =
     (if rid' = rid
      then map_option (\<lambda>r. r\<lparr>currentVote := Some
          \<lparr>submission = sub, votes = [], endTime = now s + 15000,
           voters = map nickname (filter (\<lambda>p. nickname p \<noteq> sub_nickname sub)
                                     (filter online (map snd (players r)))),
           timeouts = fst (voteTimers rid
             (map nickname (filter (\<lambda>p. nickname p \<noteq> sub_nickname sub)
                                     (filter online (map snd (players r))))) [] s)\<rparr>\<rparr>)
        (rooms s rid)
      else rooms s rid')"
  by (simp add: startPlayerVote_def Let_def split_beta split: option.splits)

lemma startNewRound_proj [simp]:
  "localCache (startNewRound rid c w s) = localCache s"
  "reconnectTimeouts (startNewRound rid c w s) = reconnectTimeouts s"
  "choiceTimeouts (startNewRound rid c w s) = choiceTimeouts s"
  "timers (startNewRound rid c w s) = timers s"
  "nextTimer (startNewRound rid c w s) = nextTimer s"
  "now (startNewRound rid c w s) = now s"
  "sockets (startNewRound rid c w s) = sockets s"
  by (simp_all add: startNewRound_def split: option.splits)

lemma removePlayerFromRoom_proj [simp]:
  "localCache (snd (removePlayerFromRoom rid nick s)) = localCache s"
  "choiceTimeouts (snd (removePlayerFromRoom rid nick s)) = choiceTimeouts s"
  "timers (snd (removePlayerFromRoom rid nick s)) = timers s"
  "nextTimer (snd (removePlayerFromRoom rid nick s)) = nextTimer s"
  "now (snd (removePlayerFromRoom rid nick s)) = now s"
  "sockets (snd (removePlayerFromRoom rid nick s)) = sockets s"
  "outbox (snd (removePlayerFromRoom rid nick s)) = outbox s"
  by (simp_all add: removePlayerFromRoom_def Let_def split: option.splits)


lemma handleCorrectAnswer_vanished:
  "rooms s rid = Some room \<Longrightarrow> map_of (players room) (sub_nickname sub) = None \<Longrightarrow>
   handleCorrectAnswer U rid sub s =
     Inr (broadcastGameState rid (upd_room rid (\<lambda>r. r\<lparr>validationQueue := []\<rparr>) s))"
  by (simp add: handleCorrectAnswer.simps processValidationQueue.simps)

lemma handleCorrectAnswer_winner:
  "rooms s rid = Some room \<Longrightarrow> map_of (players room) (sub_nickname sub) = Some w \<Longrightarrow>
   handleCorrectAnswer U rid sub s =
     Inr (broadcastGameState rid
            (open_choice rid (nickname w) (answer sub)
               (upd_room rid (\<lambda>r. r\<lparr>
                   players := AList.update (sub_nickname sub) (w\<lparr>score := score w + 1\<rparr>) (players r),
                   validationQueue := [],
                   usedSentences := push_used (normalizeSentence U (answer sub)) (usedSentences r)\<rparr>) s)))"
  by (simp add: handleCorrectAnswer.simps)

lemma handleCorrectAnswer_cases:
  assumes "rooms s rid = Some room"
  obtains s' room' where "handleCorrectAnswer U rid sub s = Inr s'"
    "rooms s' rid = Some room'" "validationQueue room' = []"
    "currentVote room' = currentVote room"
    "isPermanent room' = isPermanent room"
    "\<And>rid'. rid' \<noteq> rid \<Longrightarrow> rooms s' rid' = rooms s rid'"
    "\<And>rid'. rid' \<noteq> rid \<Longrightarrow> choiceTimeouts s' rid' = choiceTimeouts s rid'"
    "localCache s' = localCache s" "sockets s' = sockets s"
    "reconnectTimeouts s' = reconnectTimeouts s"
proof (cases "map_of (players room) (sub_nickname sub)")
  case None
  show ?thesis
    by (rule that [OF handleCorrectAnswer_vanished [OF assms None],
          of "room\<lparr>validationQueue := []\<rparr>"]) (use assms in simp_all)
next
  case (Some w)
  show ?thesis
    by (rule that [OF handleCorrectAnswer_winner [OF assms Some],
          of "room\<lparr>players := AList.update (sub_nickname sub) (w\<lparr>score := score w + 1\<rparr>) (players room),
                   validationQueue := [],
                   usedSentences := push_used (normalizeSentence U (answer sub)) (usedSentences room)\<rparr>"])
       (use assms in simp_all)
qed

lemma processValidationQueue_no_room:
  "rooms s rid = None \<Longrightarrow> processValidationQueue U rid s = Inr s"
  by (simp add: processValidationQueue.simps)

lemma processValidationQueue_cases:
  assumes "rooms s rid = Some room"
  obtains s' room' where "processValidationQueue U rid s = Inr s'"
    "rooms s' rid = Some room'"
    "validationQueue room' = [] \<or> validationQueue room' = validationQueue room"
    "currentVote room' = None \<or> choiceTimeouts s' rid = choiceTimeouts s rid"
    "isPermanent room' = isPermanent room"
    "\<And>rid'. rid' \<noteq> rid \<Longrightarrow> rooms s' rid' = rooms s rid'"
    "\<And>rid'. rid' \<noteq> rid \<Longrightarrow> choiceTimeouts s' rid' = choiceTimeouts s rid'"
    "localCache s' = localCache s" "sockets s' = sockets s"
    "reconnectTimeouts s' = reconnectTimeouts s"
proof (cases "currentVote room \<noteq> None \<or> validationQueue room = []")
  case True
  then have "processValidationQueue U rid s = Inr s"
    using assms by (simp add: processValidationQueue.simps)
  then show ?thesis
    using assms True by (intro that [of s room]) auto
next
  case False
  let ?sub = "hd (validationQueue room)"
  let ?s1 = "broadcastMessage rid (MsgVerifying (answer ?sub) (sub_nickname ?sub))
               (broadcastGameState rid s)"
  show ?thesis
  proof (cases "normalizeSentence U (answer ?sub) \<in> set (localCache s)")
    case hit: True
    let ?s2 = "broadcastMessage rid (MsgCacheHit (answer ?sub))
                 (upd_room rid (\<lambda>r. r\<lparr>validationQueue := tl (validationQueue r)\<rparr>) ?s1)"
    have eq: "processValidationQueue U rid s = handleCorrectAnswer U rid ?sub ?s2"
      using assms False hit by (simp add: processValidationQueue.simps Let_def)
    obtain r2 where r2: "rooms ?s2 rid = Some r2" "currentVote r2 = None"
      "isPermanent r2 = isPermanent room"
      using assms False by simp
    have other: "\<And>rid'. rid' \<noteq> rid \<Longrightarrow> rooms ?s2 rid' = rooms s rid'"
      by simp
    have rest: "choiceTimeouts ?s2 = choiceTimeouts s" "localCache ?s2 = localCache s"
      "sockets ?s2 = sockets s" "reconnectTimeouts ?s2 = reconnectTimeouts s"
      by simp_all
    show ?thesis
    proof (rule handleCorrectAnswer_cases [OF r2(1), of U ?sub])
      fix s' room'
      assume a: "handleCorrectAnswer U rid ?sub ?s2 = Inr s'"
        "rooms s' rid = Some room'" "validationQueue room' = []"
        "currentVote room' = currentVote r2"
        "isPermanent room' = isPermanent r2"
        "\<And>rid'. rid' \<noteq> rid \<Longrightarrow> rooms s' rid' = rooms ?s2 rid'"
        "\<And>rid'. rid' \<noteq> rid \<Longrightarrow> choiceTimeouts s' rid' = choiceTimeouts ?s2 rid'"
        "localCache s' = localCache ?s2" "sockets s' = sockets ?s2"
        "reconnectTimeouts s' = reconnectTimeouts ?s2"
      show ?thesis
      proof (rule that [of s' room'])
        show "processValidationQueue U rid s = Inr s'" using eq a(1) by simp
        show "rooms s' rid = Some room'" by (rule a(2))
        show "validationQueue room' = [] \<or> validationQueue room' = validationQueue room"
          using a(3) by simp
        show "currentVote room' = None \<or> choiceTimeouts s' rid = choiceTimeouts s rid"
          using a(4) r2(2) by simp
        show "isPermanent room' = isPermanent room" using a(5) r2(3) by simp
        show "rooms s' rid' = rooms s rid'" if "rid' \<noteq> rid" for rid'
          using a(6) [OF that] other [OF that] by simp
        show "choiceTimeouts s' rid' = choiceTimeouts s rid'" if "rid' \<noteq> rid" for rid'
          using a(7) [OF that] rest(1) by simp
        show "localCache s' = localCache s" using a(8) rest(2) by simp
        show "sockets s' = sockets s" using a(9) rest(3) by simp
        show "reconnectTimeouts s' = reconnectTimeouts s" using a(10) rest(4) by simp
      qed
    qed
  next
    case miss: False
    let ?s3 = "startPlayerVote rid ?sub (broadcastMessage rid (MsgToVote (answer ?sub)) ?s1)"
    have eq: "processValidationQueue U rid s = Inr ?s3"
      using assms False miss by (simp add: processValidationQueue.simps Let_def)
    obtain r3 where r3: "rooms ?s3 rid = Some r3" "validationQueue r3 = validationQueue room"
      "isPermanent r3 = isPermanent room"
      using assms by (simp add: rooms_startPlayerVote)
    have other: "\<And>rid'. rid' \<noteq> rid \<Longrightarrow> rooms ?s3 rid' = rooms s rid'"
      by (simp add: rooms_startPlayerVote)
    show ?thesis
      by (rule that [OF eq r3(1)]) (simp_all add: r3 other)
  qed
qed


lemma map_of_update_other:
  "n \<noteq> k \<Longrightarrow> map_of (AList.update k v al) n = map_of al n"
  by (simp add: update_conv')


section \<open>Accepting an answer\<close>



lemma handleVoteEnd_idle:
  "rooms s rid = None \<or> (\<exists>room. rooms s rid = Some room \<and> currentVote room = None) \<Longrightarrow>
   handleVoteEnd U rid s = Inr s"
  by (auto simp: handleVoteEnd_def)

lemma handleVoteEnd_eq:
  assumes "rooms s rid = Some room" and "currentVote room = Some v"
  shows "handleVoteEnd U rid s =
     (let s2 = upd_room rid (\<lambda>r. r\<lparr>currentVote := None,
                  validationQueue := tl (validationQueue r)\<rparr>)
                 (clearTimeouts (map snd (timeouts v)) s);
          sub = submission v
      in if voters v = [] \<or> length (voters v) div 2 + 1 \<le> validVotes (votes v)
         then handleCorrectAnswer U rid sub
                (cache_add (normalizeSentence U (answer sub))
                   (broadcastMessage rid
                      (if voters v = [] then MsgAutoPass (answer sub)
                       else MsgVotePassed (answer sub)) s2))
         else processValidationQueue U rid
                (broadcastGameState rid (broadcastMessage rid (MsgVoteFailed (answer sub)) s2)))"
  using assms by (simp add: handleVoteEnd_def Let_def)

section \<open>Ending a vote\<close>

lemma validVotes_count:
  "validVotes voteData = length (filter (\<lambda>x. snd x = [118, 97, 108, 105, 100]) voteData)"
  by (simp add: validVotes_def valid_str_def filter_map comp_def)

text \<open>
  What \<^verbatim>\<open>handleVoteEnd\<close> does on a room with a vote. The per-voter timers are
  cancelled, the vote is removed and the head of the queue is removed by
  \<^verbatim>\<open>shift()\<close>, whichever entry that is; players, scores and the ring of used phrases
  are as before. With the voter set empty the submission passes without any count; with
  \<open>N > 0\<close> voters it passes exactly when the number of votes equal to \<^verbatim>\<open>'valid'\<close>
  (the code units 118, 97, 108, 105, 100) is at least \<open>N div 2 + 1\<close>. On a pass the
  normalized answer is appended to the approved cache unless it is there already, and
  the submission goes to \<^verbatim>\<open>handleCorrectAnswer\<close>. On a fail the cache is left as it
  was and \<^verbatim>\<open>processValidationQueue\<close> is called on the rest of the queue. Either way
  the call returns, and neither continuation touches the cache again.
\<close>

theorem handleVoteEnd_majority:
  assumes "rooms s rid = Some room" and "currentVote room = Some v"
  shows "\<exists>s1 room1 s'.
     rooms s1 rid = Some room1 \<and> currentVote room1 = None \<and>
     validationQueue room1 = tl (validationQueue room) \<and>
     players room1 = players room \<and> usedSentences room1 = usedSentences room \<and>
     choiceTimeouts s1 = choiceTimeouts s \<and>
     (\<forall>t \<in> snd ` set (timeouts v). timers s1 t = None) \<and>
     (if voters v = [] \<or>
         length (voters v) div 2 + 1
           \<le> length (filter (\<lambda>x. snd x = [118, 97, 108, 105, 100]) (votes v))
      then handleVoteEnd U rid s = handleCorrectAnswer U rid (submission v) s1 \<and>
           localCache s1 =
             (if normalizeSentence U (answer (submission v)) \<in> set (localCache s)
              then localCache s
              else localCache s @ [normalizeSentence U (answer (submission v))])
      else handleVoteEnd U rid s = processValidationQueue U rid s1 \<and>
           localCache s1 = localCache s) \<and>
     handleVoteEnd U rid s = Inr s' \<and> localCache s' = localCache s1"
proof -
  let ?sub = "submission v"
  let ?k = "normalizeSentence U (answer ?sub)"
  let ?s2 = "upd_room rid (\<lambda>r. r\<lparr>currentVote := None,
                validationQueue := tl (validationQueue r)\<rparr>)
               (clearTimeouts (map snd (timeouts v)) s)"
  let ?pass = "voters v = [] \<or> length (voters v) div 2 + 1 \<le> validVotes (votes v)"
  let ?m = "if voters v = [] then MsgAutoPass (answer ?sub) else MsgVotePassed (answer ?sub)"
  let ?sp = "cache_add ?k (broadcastMessage rid ?m ?s2)"
  let ?sf = "broadcastGameState rid (broadcastMessage rid (MsgVoteFailed (answer ?sub)) ?s2)"
  let ?s1 = "if ?pass then ?sp else ?sf"
  have eq: "handleVoteEnd U rid s =
      (if ?pass then handleCorrectAnswer U rid ?sub ?sp else processValidationQueue U rid ?sf)"
    using assms by (simp add: handleVoteEnd_def Let_def)
  obtain room1 where r1: "rooms ?s1 rid = Some room1" "currentVote room1 = None"
     "validationQueue room1 = tl (validationQueue room)"
     "players room1 = players room" "usedSentences room1 = usedSentences room"
    using assms by (cases ?pass) simp_all
  have c: "choiceTimeouts ?s1 = choiceTimeouts s" by simp
  have t: "\<forall>t \<in> snd ` set (timeouts v). timers ?s1 t = None" by simp
  obtain s' where s': "handleVoteEnd U rid s = Inr s'" "localCache s' = localCache ?s1"
  proof (cases ?pass)
    case True
    then have "rooms ?sp rid = Some room1" using r1(1) by simp
    then have "\<exists>s'. handleCorrectAnswer U rid ?sub ?sp = Inr s' \<and> localCache s' = localCache ?sp"
      by (rule handleCorrectAnswer_cases) blast
    with True eq that show ?thesis by auto
  next
    case False
    then have "rooms ?sf rid = Some room1" using r1(1) by simp
    then have "\<exists>s'. processValidationQueue U rid ?sf = Inr s' \<and> localCache s' = localCache ?sf"
      by (rule processValidationQueue_cases) blast
    with False eq that show ?thesis by auto
  qed
  have "rooms ?s1 rid = Some room1 \<and> currentVote room1 = None \<and>
     validationQueue room1 = tl (validationQueue room) \<and>
     players room1 = players room \<and> usedSentences room1 = usedSentences room \<and>
     choiceTimeouts ?s1 = choiceTimeouts s \<and>
     (\<forall>t \<in> snd ` set (timeouts v). timers ?s1 t = None) \<and>
     (if ?pass
      then handleVoteEnd U rid s = handleCorrectAnswer U rid (submission v) ?s1 \<and>
           localCache ?s1 = (if ?k \<in> set (localCache s) then localCache s else localCache s @ [?k])
      else handleVoteEnd U rid s = processValidationQueue U rid ?s1 \<and>
           localCache ?s1 = localCache s) \<and>
     handleVoteEnd U rid s = Inr s' \<and> localCache s' = localCache ?s1"
    using r1 c t s' eq by (cases ?pass) simp_all
  then show ?thesis unfolding validVotes_count by blast
qed

theorem handleVoteEnd_majority_witness:
  "rooms (voting_state\<lparr>rooms := [room_R \<mapsto>
       voting_room\<lparr>currentVote := Some (vote_A\<lparr>votes := [(nick_B, valid_str)]\<rparr>)\<rparr>]\<rparr>) room_R
     = Some (voting_room\<lparr>currentVote := Some (vote_A\<lparr>votes := [(nick_B, valid_str)]\<rparr>)\<rparr>) \<and>
   currentVote (voting_room\<lparr>currentVote := Some (vote_A\<lparr>votes := [(nick_B, valid_str)]\<rparr>)\<rparr>)
     = Some (vote_A\<lparr>votes := [(nick_B, valid_str)]\<rparr>) \<and>
   (\<exists>s'. handleVoteEnd U0 room_R (voting_state\<lparr>rooms := [room_R \<mapsto>
       voting_room\<lparr>currentVote := Some (vote_A\<lparr>votes := [(nick_B, valid_str)]\<rparr>)\<rparr>]\<rparr>) = Inr s' \<and>
      localCache s' = [answer_X])"
proof -
  let ?v = "vote_A\<lparr>votes := [(nick_B, valid_str)]\<rparr>"
  let ?r = "voting_room\<lparr>currentVote := Some ?v\<rparr>"
  let ?s = "voting_state\<lparr>rooms := [room_R \<mapsto> ?r]\<rparr>"
  have h1: "rooms ?s room_R = Some ?r" by simp
  have h2: "currentVote ?r = Some ?v" by simp
  have p: "length (voters ?v) div 2 + 1
             \<le> length (filter (\<lambda>x. snd x = [118, 97, 108, 105, 100]) (votes ?v))"
    by (simp add: vote_A_def valid_str_def)
  have k: "normalizeSentence U0 (answer (submission ?v)) = answer_X"
    by (simp add: vote_A_def sub_A_def answer_X_def normalizeSentence_def U0_def)
  have c: "localCache ?s = []" by (simp add: voting_state_def)
  from handleVoteEnd_majority [OF h1 h2, of U0] p k c
  have "\<exists>s'. handleVoteEnd U0 room_R ?s = Inr s' \<and> localCache s' = [answer_X]"
    by auto
  with h1 h2 show ?thesis by blast
qed

lemma outbox_sendPrivateMessage [simp]:
  "outbox (sendPrivateMessage sock c s) =
     outbox s @ [(ToSocket (sock_id sock),
        NewMessage \<lparr>content = c, className = PrivateMessage, timestamp = now s\<rparr>)]"
  by (simp add: sendPrivateMessage_def)

section \<open>Submission intake\<close>

text \<open>
  C2, as amended. For a call of \<^verbatim>\<open>handlePlayerInput\<close> by a player who has a record in
  the room, the submission is appended to the queue (and queue processing called) exactly
  when none of the following holds, checked in this order: the nickname has an entry in
  the queue; the text is empty after trimming; the trimmed text has a whitespace or
  punctuation character; its normalized form is in the ring of used phrases; the trimmed
  text does not contain the start character. A rejection leaves rooms, cache, choices,
  timers and sockets as they were. The rejection of an empty text emits nothing; every
  other rejection emits one private message, to the socket of the submitter only, which
  names the first check that failed.
\<close>

theorem handlePlayerInput_intake:
  assumes "sock_nickname sock = Some nick" and "nick \<noteq> []"
    and "rooms s rid = Some room" and "map_of (players room) nick \<noteq> None"
  shows
    "if \<not> (\<exists>q \<in> set (validationQueue room). sub_nickname q = nick) \<and>
        trim U ans \<noteq> [] \<and>
        \<not> illegalChars U (trim U ans) \<and>
        normalizeSentence U (trim U ans) \<notin> set (usedSentences room) \<and>
        str_includes (trim U ans) (currentStartChar room)
     then \<exists>s1. handlePlayerInput U sock rid ans s = processValidationQueue U rid s1 \<and>
            rooms s1 rid = Some (room\<lparr>validationQueue := validationQueue room @
               [\<lparr>answer = trim U ans, sub_nickname = nick\<rparr>]\<rparr>) \<and>
            (\<forall>rid'. rid' \<noteq> rid \<longrightarrow> rooms s1 rid' = rooms s rid') \<and>
            localCache s1 = localCache s \<and> choiceTimeouts s1 = choiceTimeouts s \<and>
            timers s1 = timers s
     else \<exists>s'. handlePlayerInput U sock rid ans s = Inr s' \<and>
            rooms s' = rooms s \<and> localCache s' = localCache s \<and>
            choiceTimeouts s' = choiceTimeouts s \<and> timers s' = timers s \<and>
            reconnectTimeouts s' = reconnectTimeouts s \<and> sockets s' = sockets s \<and>
            outbox s' = outbox s @
              map (\<lambda>c. (ToSocket (sock_id sock),
                         NewMessage \<lparr>content = c, className = PrivateMessage, timestamp = now s\<rparr>))
                (if \<exists>q \<in> set (validationQueue room). sub_nickname q = nick
                 then [HintAlreadySubmitted]
                 else if trim U ans = [] then []
                 else if illegalChars U (trim U ans) then [HintIllegalChars]
                 else if normalizeSentence U (trim U ans) \<in> set (usedSentences room)
                 then [HintRecentlyUsed (trim U ans)]
                 else [HintNoStartChar])"
proof -
  obtain p where "map_of (players room) nick = Some p"
    using assms(4) by auto
  note A = assms(1-3) this
  let ?t = "trim U ans"
  let ?s1 = "broadcastGameState rid
               (upd_room rid (\<lambda>r. r\<lparr>validationQueue := validationQueue r @
                   [\<lparr>answer = ?t, sub_nickname = nick\<rparr>]\<rparr>) s)"
  consider (a) "\<exists>q \<in> set (validationQueue room). sub_nickname q = nick"
    | (b) "\<not> (\<exists>q \<in> set (validationQueue room). sub_nickname q = nick)" "?t = []"
    | (c) "\<not> (\<exists>q \<in> set (validationQueue room). sub_nickname q = nick)" "?t \<noteq> []"
          "illegalChars U ?t"
    | (d) "\<not> (\<exists>q \<in> set (validationQueue room). sub_nickname q = nick)" "?t \<noteq> []"
          "\<not> illegalChars U ?t" "normalizeSentence U ?t \<in> set (usedSentences room)"
    | (e) "\<not> (\<exists>q \<in> set (validationQueue room). sub_nickname q = nick)" "?t \<noteq> []"
          "\<not> illegalChars U ?t" "normalizeSentence U ?t \<notin> set (usedSentences room)"
          "\<not> str_includes ?t (currentStartChar room)"
    | (f) "\<not> (\<exists>q \<in> set (validationQueue room). sub_nickname q = nick)" "?t \<noteq> []"
          "\<not> illegalChars U ?t" "normalizeSentence U ?t \<notin> set (usedSentences room)"
          "str_includes ?t (currentStartChar room)"
    by blast
  then show ?thesis
  proof cases
    case a
    then show ?thesis using A by (simp add: handlePlayerInput_def)
  next
    case b
    then show ?thesis using A by (simp add: handlePlayerInput_def)
  next
    case c
    then show ?thesis using A by (simp add: handlePlayerInput_def)
  next
    case d
    then show ?thesis using A by (simp add: handlePlayerInput_def)
  next
    case e
    then show ?thesis using A by (simp add: handlePlayerInput_def)
  next
    case f
    have "handlePlayerInput U sock rid ans s = processValidationQueue U rid ?s1"
      using A f by (simp add: handlePlayerInput_def)
    moreover have "rooms ?s1 rid = Some (room\<lparr>validationQueue := validationQueue room @
               [\<lparr>answer = ?t, sub_nickname = nick\<rparr>]\<rparr>)"
      using assms by simp
    ultimately show ?thesis using f
      by (simp del: Bex_set) (rule exI [of _ ?s1], simp)
  qed
qed

text \<open>
  C2 as stated fails: \<open>B\<close> sends a single space. The text is empty after trimming, the
  call returns the state it was given, and nothing is sent to \<open>B\<close>.
\<close>

theorem handlePlayerInput_silent_counterexample:
  "handlePlayerInput U0 socket_B room_R [32] voting_state = Inr voting_state \<and>
   outbox voting_state = []"
  by (simp add: handlePlayerInput_def socket_B_def voting_state_def voting_room_def
      player_A_def player_B_def sub_A_def nick_A_def nick_B_def trim_def U0_def)

theorem handlePlayerInput_intake_witness:
  "sock_nickname socket_B = Some nick_B \<and> nick_B \<noteq> [] \<and>
   rooms voting_state room_R = Some voting_room \<and>
   map_of (players voting_room) nick_B \<noteq> None \<and>
   (\<exists>s1. handlePlayerInput U0 socket_B room_R answer_Y voting_state =
            processValidationQueue U0 room_R s1 \<and>
      rooms s1 room_R = Some (voting_room\<lparr>validationQueue :=
         [sub_A, \<lparr>answer = answer_Y, sub_nickname = nick_B\<rparr>]\<rparr>))"
proof -
  have h1: "sock_nickname socket_B = Some nick_B" by (simp add: socket_B_def)
  have h2: "nick_B \<noteq> []" by (simp add: nick_B_def)
  have h3: "rooms voting_state room_R = Some voting_room" by (simp add: voting_state_def)
  have h4: "map_of (players voting_room) nick_B \<noteq> None"
    by (simp add: voting_room_def nick_A_def nick_B_def)
  have t: "trim U0 answer_Y = answer_Y"
    by (simp add: trim_def answer_Y_def U0_def)
  have c: "\<not> (\<exists>q \<in> set (validationQueue voting_room). sub_nickname q = nick_B)"
    "\<not> illegalChars U0 answer_Y" "normalizeSentence U0 answer_Y \<notin> set (usedSentences voting_room)"
    "str_includes answer_Y (currentStartChar voting_room)" "answer_Y \<noteq> []"
    "validationQueue voting_room = [sub_A]"
    by (simp_all add: voting_room_def sub_A_def nick_A_def nick_B_def illegalChars_def
        answer_Y_def U0_def start_char_def)
  from handlePlayerInput_intake [OF h1 h2 h3 h4, of U0 answer_Y]
  have "\<exists>s1. handlePlayerInput U0 socket_B room_R answer_Y voting_state =
            processValidationQueue U0 room_R s1 \<and>
      rooms s1 room_R = Some (voting_room\<lparr>validationQueue :=
         [sub_A, \<lparr>answer = answer_Y, sub_nickname = nick_B\<rparr>]\<rparr>)"
    unfolding t using c by (simp del: Bex_set) blast
  with h1 h2 h3 h4 show ?thesis by blast
qed

text \<open>\<^verbatim>\<open>String.prototype.includes\<close>: the needle occurs as a contiguous part.\<close>

lemma str_includes_iff: "str_includes hay needle \<longleftrightarrow> (\<exists>ps ss. hay = ps @ needle @ ss)"
proof (induction hay)
  case Nil
  then show ?case by auto
next
  case (Cons c cs)
  show ?case
  proof
    assume "str_includes (c # cs) needle"
    then consider "take (length needle) (c # cs) = needle" | "str_includes cs needle"
      by auto
    then show "\<exists>ps ss. c # cs = ps @ needle @ ss"
    proof cases
      case 1
      then have "c # cs = [] @ needle @ drop (length needle) (c # cs)"
        by (metis append_Nil append_take_drop_id)
      then show ?thesis by blast
    next
      case 2
      then obtain ps ss where "cs = ps @ needle @ ss" using Cons.IH by blast
      then have "c # cs = (c # ps) @ needle @ ss" by simp
      then show ?thesis by blast
    qed
  next
    assume "\<exists>ps ss. c # cs = ps @ needle @ ss"
    then obtain ps ss where e: "c # cs = ps @ needle @ ss" by blast
    show "str_includes (c # cs) needle"
    proof (cases ps)
      case Nil
      then have "take (length needle) (c # cs) = needle" using e by simp
      then show ?thesis by simp
    next
      case (Cons p ps')
      then have "cs = ps' @ needle @ ss" using e by simp
      then have "str_includes cs needle" using Cons.IH by blast
      then show ?thesis by simp
    qed
  qed
qed

section \<open>The approved cache holds no phrase twice\<close>

lemma handleCorrectAnswer_cache:
  "handleCorrectAnswer U rid sub s = Inr s' \<Longrightarrow> localCache s' = localCache s"
proof (cases "rooms s rid")
  case None
  assume "handleCorrectAnswer U rid sub s = Inr s'"
  then show ?thesis using None by (simp add: handleCorrectAnswer.simps)
next
  case (Some room)
  assume a: "handleCorrectAnswer U rid sub s = Inr s'"
  show ?thesis
    by (rule handleCorrectAnswer_cases [OF Some, of U sub]) (use a in auto)
qed

lemma processValidationQueue_cache:
  "processValidationQueue U rid s = Inr s' \<Longrightarrow> localCache s' = localCache s"
proof (cases "rooms s rid")
  case None
  assume "processValidationQueue U rid s = Inr s'"
  then show ?thesis using None by (simp add: processValidationQueue_no_room)
next
  case (Some room)
  assume a: "processValidationQueue U rid s = Inr s'"
  show ?thesis
    by (rule processValidationQueue_cases [OF Some, of U]) (use a in auto)
qed

lemma handleVoteEnd_cache:
  assumes "handleVoteEnd U rid s = Inr s'" and "distinct (localCache s)"
  shows "distinct (localCache s')"
proof (cases "\<exists>room v. rooms s rid = Some room \<and> currentVote room = Some v")
  case False
  then have "handleVoteEnd U rid s = Inr s"
    by (intro handleVoteEnd_idle) (cases "rooms s rid"; auto)
  then show ?thesis using assms by simp
next
  case True
  then obtain room v where rv: "rooms s rid = Some room" "currentVote room = Some v"
    by blast
  show ?thesis
    using assms unfolding handleVoteEnd_eq [OF rv] Let_def
    by (auto split: if_splits dest!: handleCorrectAnswer_cache processValidationQueue_cache)
qed

lemma handleVoteTimeout_cache:
  "handleVoteTimeout U rid nick s = Inr s' \<Longrightarrow> distinct (localCache s) \<Longrightarrow>
   distinct (localCache s')"
  by (auto simp: handleVoteTimeout_def Let_def split: option.splits if_splits
      dest!: handleVoteEnd_cache)

lemma handlePlayerVote_cache:
  "handlePlayerVote U sock rid v s = Inr s' \<Longrightarrow> distinct (localCache s) \<Longrightarrow>
   distinct (localCache s')"
  by (auto simp: handlePlayerVote_def Let_def split: option.splits if_splits
      dest!: handleVoteEnd_cache)

lemma handlePlayerInput_cache:
  "handlePlayerInput U sock rid ans s = Inr s' \<Longrightarrow> localCache s' = localCache s"
  by (auto simp: handlePlayerInput_def Let_def split: option.splits if_splits
      dest!: processValidationQueue_cache)

lemma withdrawAnswer_cache:
  "withdrawAnswer U sock s = Inr s' \<Longrightarrow> localCache s' = localCache s"
  by (auto simp: withdrawAnswer_def Let_def split: option.splits if_splits
      dest!: processValidationQueue_cache)

lemma reconnectPlayer_cache [simp]:
  "localCache (reconnectPlayer sock rid nick s) = localCache s"
  by (simp add: reconnectPlayer_def Let_def split_beta split: option.splits)

lemma joinRoom_cache:
  "joinRoom U sock rid nick s = Inr s' \<Longrightarrow> localCache s' = localCache s"
  by (auto simp: joinRoom_def Let_def split: option.splits if_splits)

lemma createRoom_cache:
  "createRoom U sock rn nick rnd s = Inr s' \<Longrightarrow> localCache s' = localCache s"
  by (auto simp: createRoom_def Let_def split: option.splits if_splits dest!: joinRoom_cache)

lemma reconnectTimeoutFires_cache [simp]:
  "localCache (reconnectTimeoutFires rid nick pn s) = localCache s"
  by (simp add: reconnectTimeoutFires_def Let_def split_beta split: option.splits)

lemma choiceTimeoutFires_cache [simp]:
  "localCache (choiceTimeoutFires U rid ans s) = localCache s"
  by (simp add: choiceTimeoutFires_def Let_def split: option.splits)

lemma handleCharChoice_cache [simp]:
  "localCache (handleCharChoice sock rid c s) = localCache s"
  by (simp add: handleCharChoice_def Let_def split: option.splits)

lemma handlePlayerDisconnect_cache:
  "handlePlayerDisconnect U sock g s = Inr s' \<Longrightarrow> distinct (localCache s) \<Longrightarrow>
   distinct (localCache s')"
  by (auto simp: handlePlayerDisconnect_def Let_def split_beta
      split: option.splits if_splits sum.splits dest!: handleVoteEnd_cache)

lemma scheduleDisconnect_cache [simp]: "localCache (scheduleDisconnect p s) = localCache s"
  by (simp add: scheduleDisconnect_def split: option.splits)

lemma fold_scheduleDisconnect_cache [simp]:
  "localCache (fold scheduleDisconnect ps s) = localCache s"
  by (induction ps arbitrary: s) simp_all

lemma adminDeleteRoom_cache [simp]: "localCache (adminDeleteRoom rid s) = localCache s"
  by (simp add: adminDeleteRoom_def Let_def split: option.splits)

lemma adminKick_cache [simp]: "localCache (adminKick rid nick s) = localCache s"
  by (simp add: adminKick_def Let_def split: option.splits)

lemma adminTogglePermanent_cache [simp]:
  "localCache (adminTogglePermanent rid s) = localCache s"
  by (simp add: adminTogglePermanent_def)

lemma adminCacheAdd_cache:
  "distinct (localCache s) \<Longrightarrow> distinct (localCache (adminCacheAdd U sentence s))"
  by (simp add: adminCacheAdd_def Let_def)

lemma adminCacheDelete_cache:
  "distinct (localCache s) \<Longrightarrow> distinct (localCache (adminCacheDelete U sentence s))"
  by (simp add: adminCacheDelete_def)

lemma socketDisconnects_cache:
  "socketDisconnects U sid s = Inr s' \<Longrightarrow> distinct (localCache s) \<Longrightarrow>
   distinct (localCache s')"
  by (auto simp: socketDisconnects_def split: option.splits dest!: handlePlayerDisconnect_cache)

lemma run_timer_cache:
  "run_timer U act s = Inr s' \<Longrightarrow> distinct (localCache s) \<Longrightarrow> distinct (localCache s')"
  by (cases act)
     (auto simp: run_timer_def dest: handleVoteTimeout_cache socketDisconnects_cache)

lemma timerFires_cache:
  "timerFires U t s = Inr s' \<Longrightarrow> distinct (localCache s) \<Longrightarrow> distinct (localCache s')"
  by (auto simp: timerFires_def split: option.splits if_splits dest!: run_timer_cache)

lemma step_cache:
  assumes "step U e s = Inr s'" and "distinct (localCache s)"
  shows "distinct (localCache s')"
proof (cases e)
  case (Connect sid)
  then show ?thesis using assms by (auto simp: step_def split: option.splits)
next
  case (CreateRoom sid rn nick rnd)
  then show ?thesis using assms
    by (auto simp: step_def on_socket_def split: option.splits dest!: createRoom_cache)
next
  case (JoinRoom sid rid nick)
  then show ?thesis using assms
    by (auto simp: step_def on_socket_def split: option.splits dest!: joinRoom_cache)
next
  case (ReconnectPlayer sid rid nick)
  then show ?thesis using assms
    by (auto simp: step_def on_socket_def split: option.splits)
next
  case (LeaveRoom sid)
  then show ?thesis using assms
    by (auto simp: step_def on_socket_def split: option.splits
        dest!: handlePlayerDisconnect_cache)
next
  case (Disconnect sid)
  then show ?thesis using assms
    by (auto simp: step_def dest!: socketDisconnects_cache)
next
  case (SubmitAnswer sid ans)
  then show ?thesis using assms
    by (auto simp: step_def on_socket_def split: option.splits if_splits
        dest!: handlePlayerInput_cache)
next
  case (WithdrawAnswer sid)
  then show ?thesis using assms
    by (auto simp: step_def on_socket_def split: option.splits dest!: withdrawAnswer_cache)
next
  case (SubmitVote sid v)
  then show ?thesis using assms
    by (auto simp: step_def on_socket_def split: option.splits if_splits
        dest!: handlePlayerVote_cache)
next
  case (ChooseNewChar sid c)
  then show ?thesis using assms
    by (auto simp: step_def on_socket_def split: option.splits if_splits)
next
  case (TimerFires t)
  then show ?thesis using assms by (auto simp: step_def dest!: timerFires_cache)
next
  case (Advance d)
  then show ?thesis using assms by (auto simp: step_def)
next
  case (AdminTogglePermanent rid)
  then show ?thesis using assms by (auto simp: step_def)
next
  case (AdminDeleteRoom rid)
  then show ?thesis using assms by (auto simp: step_def)
next
  case (AdminCacheAdd sentence)
  then show ?thesis using assms by (auto simp: step_def dest: adminCacheAdd_cache)
next
  case (AdminCacheDelete sentence)
  then show ?thesis using assms by (auto simp: step_def dest: adminCacheDelete_cache)
next
  case (AdminKick rid nick)
  then show ?thesis using assms by (auto simp: step_def)
qed

text \<open>
  C10. The approved cache never holds two equal entries: starting from a cache without
  duplicates (the empty cache of a fresh server, or a loaded one), every sequence of
  events that the server handles leaves it without duplicates. The three places that
  insert (\<^verbatim>\<open>handleVoteEnd\<close> twice, the admin's \<^verbatim>\<open>/cache/add\<close>) test membership first.
\<close>

theorem cache_never_duplicates:
  "distinct (localCache s0) \<Longrightarrow> run U es s0 = Inr s \<Longrightarrow> distinct (localCache s)"
proof (induction es arbitrary: s0)
  case Nil
  then show ?case by simp
next
  case (Cons e es)
  from Cons.prems(2) obtain s1 where s1: "step U e s0 = Inr s1" "run U es s1 = Inr s"
    by (auto split: sum.splits)
  from step_cache [OF s1(1) Cons.prems(1)] have "distinct (localCache s1)" .
  from Cons.IH [OF this s1(2)] show ?case .
qed

theorem cache_never_duplicates_witness:
  "distinct (localCache init) \<and>
   run U0 [AdminCacheAdd answer_X, AdminCacheAdd answer_X] init
     = Inr (init\<lparr>localCache := [answer_X]\<rparr>) \<and>
   distinct (localCache (init\<lparr>localCache := [answer_X]\<rparr>))"
proof -
  have h1: "distinct (localCache init)" by (simp add: init_def)
  have h2: "run U0 [AdminCacheAdd answer_X, AdminCacheAdd answer_X] init
     = Inr (init\<lparr>localCache := [answer_X]\<rparr>)"
    by (simp add: step_def adminCacheAdd_def normalizeSentence_def U0_def answer_X_def init_def)
  from cache_never_duplicates [OF h1 h2] h1 h2 show ?thesis by simp
qed

section \<open>No nickname is queued twice\<close>

lemma queue_inv_rooms: "(\<And>rid. rooms s' rid = rooms s rid) \<Longrightarrow> queue_inv s' = queue_inv s"
  by (simp add: queue_inv_def)

lemma queue_inv_upd_room:
  assumes "queue_inv s"
    and "\<And>r. rooms s rid = Some r \<Longrightarrow> distinct (map sub_nickname (validationQueue r)) \<Longrightarrow>
           distinct (map sub_nickname (validationQueue (f r)))"
  shows "queue_inv (upd_room rid f s)"
  using assms by (auto simp: queue_inv_def)

lemma queue_inv_same [simp]:
  "queue_inv (emit t e s) = queue_inv s"
  "queue_inv (broadcastGameState rid s) = queue_inv s"
  "queue_inv (broadcastRoomList s) = queue_inv s"
  "queue_inv (sendPrivateMessage sock c s) = queue_inv s"
  "queue_inv (clearTimeout h s) = queue_inv s"
  "queue_inv (clearTimeouts ts s) = queue_inv s"
  "queue_inv (snd (setTimeout a d s)) = queue_inv s"
  "queue_inv (set_socket sid rid nick s) = queue_inv s"
  "queue_inv (cache_add k s) = queue_inv s"
  "queue_inv (open_choice rid w ans s) = queue_inv s"
  "queue_inv (snd (voteTimers rid ns tos s)) = queue_inv s"
  by (simp_all add: queue_inv_def)

lemma queue_inv_mapped:
  assumes m: "\<And>rid'. rooms s' rid' = (if rid' = rid then map_option g (rooms s rid) else rooms s rid')"
    and q: "\<And>r. validationQueue (g r) = validationQueue r"
  shows "queue_inv s' = queue_inv s"
proof
  assume H: "queue_inv s'"
  show "queue_inv s"
    unfolding queue_inv_def
  proof (intro allI impI)
    fix rid' r
    assume r: "rooms s rid' = Some r"
    show "distinct (map sub_nickname (validationQueue r))"
    proof (cases "rid' = rid")
      case True
      then have "rooms s' rid = Some (g r)" using m [of rid] r by simp
      then have "distinct (map sub_nickname (validationQueue (g r)))"
        using H unfolding queue_inv_def by blast
      then show ?thesis by (simp add: q)
    next
      case False
      then have "rooms s' rid' = Some r" using m [of rid'] r by simp
      then show ?thesis using H unfolding queue_inv_def by blast
    qed
  qed
next
  assume H: "queue_inv s"
  show "queue_inv s'"
    unfolding queue_inv_def
  proof (intro allI impI)
    fix rid' r'
    assume r: "rooms s' rid' = Some r'"
    show "distinct (map sub_nickname (validationQueue r'))"
    proof (cases "rid' = rid")
      case True
      then obtain r where "rooms s rid = Some r" "r' = g r"
        using m [of rid] r by (cases "rooms s rid") auto
      then show ?thesis using H q unfolding queue_inv_def by metis
    next
      case False
      then have "rooms s rid' = Some r'" using m [of rid'] r by simp
      then show ?thesis using H unfolding queue_inv_def by blast
    qed
  qed
qed

lemma queue_inv_broadcastMessage [simp]: "queue_inv (broadcastMessage rid c s) = queue_inv s"
  by (rule queue_inv_mapped [where rid = rid and g = "\<lambda>r. r\<lparr>messages :=
          push_message \<lparr>content = c, className = GameMessage, timestamp = now s\<rparr>
               (messages r)\<rparr>"]) simp_all

lemma queue_inv_upd_vote [simp]: "queue_inv (upd_vote rid f s) = queue_inv s"
  by (rule queue_inv_mapped [where rid = rid and
        g = "\<lambda>r. r\<lparr>currentVote := map_option f (currentVote r)\<rparr>"]) simp_all

lemma queue_inv_upd_room_same:
  "(\<And>r. validationQueue (f r) = validationQueue r) \<Longrightarrow>
   queue_inv (upd_room rid f s) = queue_inv s"
  by (rule queue_inv_mapped [where rid = rid and g = f]) simp_all

lemma queue_inv_startPlayerVote [simp]: "queue_inv (startPlayerVote rid sub s) = queue_inv s"
  by (rule queue_inv_mapped [where rid = rid, OF rooms_startPlayerVote]) simp

lemma handleCorrectAnswer_queue:
  assumes "handleCorrectAnswer U rid sub s = Inr s'" and "queue_inv s"
  shows "queue_inv s'"
proof (cases "rooms s rid")
  case None
  then show ?thesis using assms by (simp add: handleCorrectAnswer.simps)
next
  case (Some room)
  show ?thesis
  proof (cases "map_of (players room) (sub_nickname sub)")
    case None
    have "queue_inv (upd_room rid (\<lambda>r. r\<lparr>validationQueue := []\<rparr>) s)"
      by (rule queue_inv_upd_room [OF assms(2)]) simp
    then show ?thesis
      using assms(1) by (auto simp: handleCorrectAnswer_vanished [OF Some None])
  next
    case (Some w)
    have "queue_inv (upd_room rid (\<lambda>r. r\<lparr>
             players := AList.update (sub_nickname sub) (w\<lparr>score := score w + 1\<rparr>) (players r),
             validationQueue := [],
             usedSentences := push_used (normalizeSentence U (answer sub)) (usedSentences r)\<rparr>) s)"
      by (rule queue_inv_upd_room [OF assms(2)]) simp
    then show ?thesis
      using assms(1) by (auto simp: handleCorrectAnswer_winner [OF \<open>rooms s rid = Some room\<close> Some])
  qed
qed

lemma distinct_tl_map: "distinct (map f xs) \<Longrightarrow> distinct (map f (tl xs))"
  by (cases xs) simp_all

lemma processValidationQueue_queue:
  assumes "processValidationQueue U rid s = Inr s'" and "queue_inv s"
  shows "queue_inv s'"
proof (cases "rooms s rid")
  case None
  then show ?thesis using assms by (simp add: processValidationQueue_no_room)
next
  case (Some room)
  have q: "queue_inv (upd_room rid (\<lambda>r. r\<lparr>validationQueue := tl (validationQueue r)\<rparr>) s)"
    by (rule queue_inv_upd_room [OF assms(2)]) (simp add: distinct_tl_map)
  have q': "queue_inv (upd_room rid (\<lambda>r. r\<lparr>validationQueue := tl (validationQueue r)\<rparr>)
       (broadcastMessage rid m (broadcastGameState rid s)))" for m
    by (rule queue_inv_upd_room) (simp_all add: assms(2) distinct_tl_map)
  show ?thesis
    using assms(1) Some assms(2) q'
    by (auto simp: processValidationQueue.simps Let_def split: if_splits
        dest!: handleCorrectAnswer_queue)
qed

lemma handleVoteEnd_queue:
  assumes "handleVoteEnd U rid s = Inr s'" and "queue_inv s"
  shows "queue_inv s'"
proof (cases "\<exists>room v. rooms s rid = Some room \<and> currentVote room = Some v")
  case False
  then have "handleVoteEnd U rid s = Inr s"
    by (intro handleVoteEnd_idle) (cases "rooms s rid"; auto)
  then show ?thesis using assms by simp
next
  case True
  then obtain room v where rv: "rooms s rid = Some room" "currentVote room = Some v"
    by blast
  have q: "queue_inv (upd_room rid (\<lambda>r. r\<lparr>currentVote := None,
                  validationQueue := tl (validationQueue r)\<rparr>)
                 (clearTimeouts (map snd (timeouts v)) s))"
    by (rule queue_inv_upd_room) (simp_all add: assms(2) distinct_tl_map)
  show ?thesis
    using assms(1) q unfolding handleVoteEnd_eq [OF rv] Let_def
    by (auto split: if_splits dest!: handleCorrectAnswer_queue processValidationQueue_queue)
qed

lemma handleVoteTimeout_queue:
  "handleVoteTimeout U rid nick s = Inr s' \<Longrightarrow> queue_inv s \<Longrightarrow> queue_inv s'"
  by (auto simp: handleVoteTimeout_def Let_def split: option.splits if_splits
      dest!: handleVoteEnd_queue)

lemma handlePlayerVote_queue:
  "handlePlayerVote U sock rid v s = Inr s' \<Longrightarrow> queue_inv s \<Longrightarrow> queue_inv s'"
  by (auto simp: handlePlayerVote_def Let_def split: option.splits if_splits
      dest!: handleVoteEnd_queue)

lemma queue_inv_removePlayerFromRoom:
  "queue_inv s \<Longrightarrow> queue_inv (snd (removePlayerFromRoom rid nick s))"
  unfolding queue_inv_def removePlayerFromRoom_def
  by (auto simp: Let_def split: option.splits if_splits)

lemma queue_inv_startNewRound [simp]: "queue_inv (startNewRound rid c w s) = queue_inv s"
  by (simp add: startNewRound_def queue_inv_upd_room_same split: option.splits)

lemma queue_inv_fields [simp]:
  "queue_inv (s\<lparr>choiceTimeouts := ct\<rparr>) = queue_inv s"
  "queue_inv (s\<lparr>reconnectTimeouts := rt\<rparr>) = queue_inv s"
  "queue_inv (s\<lparr>timers := tm\<rparr>) = queue_inv s"
  "queue_inv (s\<lparr>sockets := so\<rparr>) = queue_inv s"
  "queue_inv (s\<lparr>now := n\<rparr>) = queue_inv s"
  "queue_inv (s\<lparr>localCache := lc\<rparr>) = queue_inv s"
  by (simp_all add: queue_inv_def)

lemma handlePlayerInput_queue:
  assumes "handlePlayerInput U sock rid ans s = Inr s'" and "queue_inv s"
  shows "queue_inv s'"
proof -
  have q: "queue_inv (upd_room rid (\<lambda>r. r\<lparr>validationQueue := validationQueue r @
             [\<lparr>answer = t, sub_nickname = nick\<rparr>]\<rparr>) s)"
    if "rooms s rid = Some room" "\<forall>q \<in> set (validationQueue room). sub_nickname q \<noteq> nick"
    for room t nick
    by (rule queue_inv_upd_room [OF assms(2)]) (use that in auto)
  show ?thesis
    using assms q
    by (auto simp: handlePlayerInput_def Let_def split: option.splits if_splits
        dest!: processValidationQueue_queue)
qed

lemma withdrawAnswer_queue:
  assumes "withdrawAnswer U sock s = Inr s'" and "queue_inv s"
  shows "queue_inv s'"
proof -
  have q: "queue_inv (upd_room rid (\<lambda>r. r\<lparr>validationQueue := q\<rparr>) s)"
    if "rooms s rid = Some room" "q = filter P (validationQueue room)" for rid room q P
    by (rule queue_inv_upd_room [OF assms(2)]) (use that in \<open>auto simp: distinct_map_filter\<close>)
  have q2: "queue_inv (upd_room rid (\<lambda>r. r\<lparr>currentVote := None\<rparr>) s0) = queue_inv s0" for rid s0
    by (rule queue_inv_upd_room_same) simp
  show ?thesis
    using assms q
    by (auto simp: withdrawAnswer_def Let_def q2 split: option.splits if_splits
        dest!: processValidationQueue_queue)
qed

lemma queue_inv_players:
  "queue_inv (upd_room rid (\<lambda>r. r\<lparr>players := f r\<rparr>) s) = queue_inv s"
  by (rule queue_inv_upd_room_same) simp

lemma reconnectPlayer_queue [simp]:
  "queue_inv (reconnectPlayer sock rid nick s) = queue_inv s"
  by (simp add: reconnectPlayer_def Let_def split_beta queue_inv_players split: option.splits)

lemma joinRoom_queue:
  "joinRoom U sock rid nick s = Inr s' \<Longrightarrow> queue_inv s \<Longrightarrow> queue_inv s'"
  by (auto simp: joinRoom_def Let_def queue_inv_players split: option.splits if_splits)

lemma queue_inv_new_room:
  "queue_inv s \<Longrightarrow> validationQueue r = [] \<Longrightarrow> queue_inv (s\<lparr>rooms := (rooms s)(rid \<mapsto> r)\<rparr>)"
  by (simp add: queue_inv_def)

lemma createRoom_queue:
  "createRoom U sock rn nick rnd s = Inr s' \<Longrightarrow> queue_inv s \<Longrightarrow> queue_inv s'"
  by (auto simp: createRoom_def Let_def split: option.splits if_splits
      dest!: joinRoom_queue intro!: queue_inv_new_room)

lemma reconnectTimeoutFires_queue:
  "queue_inv s \<Longrightarrow> queue_inv (reconnectTimeoutFires rid nick pn s)"
  using queue_inv_removePlayerFromRoom [of s rid nick]
  by (auto simp: reconnectTimeoutFires_def Let_def split_beta split: option.splits)

lemma choiceTimeoutFires_queue [simp]:
  "queue_inv (choiceTimeoutFires U rid ans s) = queue_inv s"
  by (simp add: choiceTimeoutFires_def Let_def split: option.splits)

lemma handleCharChoice_queue [simp]:
  "queue_inv (handleCharChoice sock rid c s) = queue_inv s"
  by (simp add: handleCharChoice_def Let_def split: option.splits)

lemma handlePlayerDisconnect_queue:
  assumes "handlePlayerDisconnect U sock g s = Inr s'" and "queue_inv s"
  shows "queue_inv s'"
proof -
  have r: "queue_inv (snd (removePlayerFromRoom rid nick (broadcastMessage rid m s)))" for rid nick m
    by (rule queue_inv_removePlayerFromRoom) (simp add: assms(2))
  show ?thesis
    using assms r
    by (auto simp: handlePlayerDisconnect_def Let_def split_beta queue_inv_players
        split: option.splits if_splits sum.splits dest!: handleVoteEnd_queue)
qed

lemma scheduleDisconnect_queue [simp]: "queue_inv (scheduleDisconnect p s) = queue_inv s"
  by (simp add: scheduleDisconnect_def split: option.splits)

lemma fold_scheduleDisconnect_queue [simp]:
  "queue_inv (fold scheduleDisconnect ps s) = queue_inv s"
  by (induction ps arbitrary: s) simp_all

lemma queue_inv_delete_room:
  "queue_inv s \<Longrightarrow> queue_inv (s\<lparr>rooms := (rooms s)(rid := None)\<rparr>)"
  by (simp add: queue_inv_def)

lemma adminDeleteRoom_queue: "queue_inv s \<Longrightarrow> queue_inv (adminDeleteRoom rid s)"
  by (auto simp: adminDeleteRoom_def Let_def split: option.splits intro!: queue_inv_delete_room)

lemma adminKick_queue: "queue_inv s \<Longrightarrow> queue_inv (adminKick rid nick s)"
  by (auto simp: adminKick_def Let_def split: option.splits intro!: queue_inv_removePlayerFromRoom)

lemma adminTogglePermanent_queue [simp]:
  "queue_inv (adminTogglePermanent rid s) = queue_inv s"
  unfolding adminTogglePermanent_def by (rule queue_inv_upd_room_same) simp

lemma adminCache_queue [simp]:
  "queue_inv (adminCacheAdd U sentence s) = queue_inv s"
  "queue_inv (adminCacheDelete U sentence s) = queue_inv s"
  by (simp_all add: adminCacheAdd_def adminCacheDelete_def Let_def)

lemma socketDisconnects_queue:
  "socketDisconnects U sid s = Inr s' \<Longrightarrow> queue_inv s \<Longrightarrow> queue_inv s'"
  by (auto simp: socketDisconnects_def split: option.splits dest!: handlePlayerDisconnect_queue)

lemma run_timer_queue:
  "run_timer U act s = Inr s' \<Longrightarrow> queue_inv s \<Longrightarrow> queue_inv s'"
  by (cases act)
     (auto simp: run_timer_def
        dest: handleVoteTimeout_queue socketDisconnects_queue reconnectTimeoutFires_queue)

lemma timerFires_queue:
  "timerFires U t s = Inr s' \<Longrightarrow> queue_inv s \<Longrightarrow> queue_inv s'"
  by (auto simp: timerFires_def split: option.splits if_splits dest!: run_timer_queue)

lemma step_queue:
  assumes "step U e s = Inr s'" and "queue_inv s"
  shows "queue_inv s'"
proof (cases e)
  case (Connect sid)
  then show ?thesis using assms by (auto simp: step_def split: option.splits)
next
  case (CreateRoom sid rn nick rnd)
  then show ?thesis using assms
    by (auto simp: step_def on_socket_def split: option.splits dest!: createRoom_queue)
next
  case (JoinRoom sid rid nick)
  then show ?thesis using assms
    by (auto simp: step_def on_socket_def split: option.splits dest!: joinRoom_queue)
next
  case (ReconnectPlayer sid rid nick)
  then show ?thesis using assms
    by (auto simp: step_def on_socket_def split: option.splits)
next
  case (LeaveRoom sid)
  then show ?thesis using assms
    by (auto simp: step_def on_socket_def split: option.splits
        dest!: handlePlayerDisconnect_queue)
next
  case (Disconnect sid)
  then show ?thesis using assms
    by (auto simp: step_def dest!: socketDisconnects_queue)
next
  case (SubmitAnswer sid ans)
  then show ?thesis using assms
    by (auto simp: step_def on_socket_def split: option.splits if_splits
        dest!: handlePlayerInput_queue)
next
  case (WithdrawAnswer sid)
  then show ?thesis using assms
    by (auto simp: step_def on_socket_def split: option.splits dest!: withdrawAnswer_queue)
next
  case (SubmitVote sid v)
  then show ?thesis using assms
    by (auto simp: step_def on_socket_def split: option.splits if_splits
        dest!: handlePlayerVote_queue)
next
  case (ChooseNewChar sid c)
  then show ?thesis using assms
    by (auto simp: step_def on_socket_def split: option.splits if_splits)
next
  case (TimerFires t)
  then show ?thesis using assms by (auto simp: step_def dest!: timerFires_queue)
next
  case (Advance d)
  then show ?thesis using assms by (auto simp: step_def)
next
  case (AdminTogglePermanent rid)
  then show ?thesis using assms by (auto simp: step_def)
next
  case (AdminDeleteRoom rid)
  then show ?thesis using assms by (auto simp: step_def dest: adminDeleteRoom_queue)
next
  case (AdminCacheAdd sentence)
  then show ?thesis using assms by (auto simp: step_def)
next
  case (AdminCacheDelete sentence)
  then show ?thesis using assms by (auto simp: step_def)
next
  case (AdminKick rid nick)
  then show ?thesis using assms by (auto simp: step_def dest: adminKick_queue)
qed

lemma run_queue:
  "queue_inv s0 \<Longrightarrow> run U es s0 = Inr s \<Longrightarrow> queue_inv s"
proof (induction es arbitrary: s0)
  case Nil
  then show ?case by simp
next
  case (Cons e es)
  from Cons.prems(2) obtain s1 where s1: "step U e s0 = Inr s1" "run U es s1 = Inr s"
    by (auto split: sum.splits)
  from step_queue [OF s1(1) Cons.prems(1)] have "queue_inv s1" .
  from Cons.IH [OF this s1(2)] show ?case .
qed

text \<open>
  C8. In every state that the server reaches from its start, the validation queue of
  every room holds at most one entry for each nickname. Intake is the only place that
  adds an entry, and it rejects a nickname that is queued; withdrawal filters the queue,
  vote resolution drops its head and acceptance empties it.
\<close>

theorem queue_one_entry_per_nickname:
  assumes "run U es init = Inr s" and "rooms s rid = Some r"
  shows "distinct (map sub_nickname (validationQueue r))"
proof -
  have "queue_inv init" by (simp add: queue_inv_def init_def)
  then have "queue_inv s" using assms(1) by (rule run_queue)
  then show ?thesis using assms(2) by (simp add: queue_inv_def)
qed

text \<open>The definitions that a concrete run unfolds.\<close>

lemmas example_defs =
  room_R_def room_S_def nick_A_def nick_B_def nick_b_def socket_3_def player_b_def offline_room_def
  offline_state_def answer_X_def answer_Y_def sub_A_def player_A_def
  player_B_def socket_A_def socket_B_def vote_A_def voting_room_def voting_state_def
  U0_def init_def start_char_def valid_str_def nick_C_def invalid_str_def nick_toString_def
  nick_TOSTRING_def last_voter_room_def last_voter_state_def object_prototype_names_def

lemmas handler_defs =
  step_def on_socket_def createRoom_def joinRoom_def reconnectPlayer_def
  handlePlayerInput_def withdrawAnswer_def handlePlayerVote_def handleVoteTimeout_def
  handleVoteEnd_def handleCharChoice_def handlePlayerDisconnect_def socketDisconnects_def
  timerFires_def run_timer_def reconnectTimeoutFires_def choiceTimeoutFires_def
  removePlayerFromRoom_def startNewRound_def adminDeleteRoom_def adminKick_def
  adminTogglePermanent_def adminCacheAdd_def adminCacheDelete_def scheduleDisconnect_def
  processValidationQueue.simps handleCorrectAnswer.simps startPlayerVote_def
  set_socket_def setTimeout_def open_choice_def push_used_def push_message_def
  vote_complete_def validVotes_def truthy_def
  trim_def illegalChars_def normalizeSentence_def Let_def split_beta

theorem queue_one_entry_per_nickname_witness:
  "\<exists>s r. run U0 [Connect 1, Connect 2, CreateRoom 1 room_R nick_A [], JoinRoom 2 room_R nick_B,
               SubmitAnswer 1 answer_X, SubmitAnswer 2 answer_Y, SubmitAnswer 1 answer_Y] init
            = Inr s \<and>
     rooms s room_R = Some r \<and>
     map sub_nickname (validationQueue r) = [nick_A, nick_B] \<and>
     distinct (map sub_nickname (validationQueue r))"
proof -
  have "\<exists>s r. run U0 [Connect 1, Connect 2, CreateRoom 1 room_R nick_A [], JoinRoom 2 room_R nick_B,
               SubmitAnswer 1 answer_X, SubmitAnswer 2 answer_Y, SubmitAnswer 1 answer_Y] init
            = Inr s \<and>
     rooms s room_R = Some r \<and>
     map sub_nickname (validationQueue r) = [nick_A, nick_B]"
    by (simp add: example_defs handler_defs)
  then obtain s r where h: "run U0 [Connect 1, Connect 2, CreateRoom 1 room_R nick_A [],
       JoinRoom 2 room_R nick_B, SubmitAnswer 1 answer_X, SubmitAnswer 2 answer_Y,
       SubmitAnswer 1 answer_Y] init = Inr s" "rooms s room_R = Some r"
     "map sub_nickname (validationQueue r) = [nick_A, nick_B]"
    by (elim exE conjE)
  have d: "distinct (map sub_nickname (validationQueue r))"
    by (rule queue_one_entry_per_nickname [OF h(1) h(2)])
  show ?thesis
    by (rule exI [of _ s], rule exI [of _ r]) (intro conjI h d)
qed

section \<open>A vote that ends after its submission left the queue\<close>

text \<open>
  C1 fails on the code. \<open>A\<close>, \<open>B\<close> and \<open>C\<close> are in room \<open>R\<close>. \<open>A\<close> submits a
  phrase that is not cached, so \<open>B\<close> and \<open>C\<close> vote on it; \<open>C\<close> submits a phrase of
  their own, which waits in the queue behind it. \<open>A\<close> leaves the room, and the socket of
  \<open>A\<close>, which keeps its room id and nickname, sends \<^verbatim>\<open>withdrawAnswer\<close>: the handler
  filters the entry of \<open>A\<close> out of the queue before it tests that \<open>A\<close> is a player of
  the room, and as \<open>A\<close> is none it leaves the vote open. The head of the queue is now
  the entry of \<open>C\<close>, while the vote is still on the submission of \<open>A\<close>. \<open>B\<close> and
  \<open>C\<close> vote \<^verbatim>\<open>invalid\<close>. The vote fails, and \<^verbatim>\<open>handleVoteEnd\<close> removes the head
  of the queue: the entry of \<open>C\<close> is gone without having been looked up in the cache
  or put to a vote, the queue is empty and no vote is open. In the same run without the
  departure and the withdrawal, the failed vote is followed by the validation of the
  phrase of \<open>C\<close>.
\<close>

theorem vote_end_drops_unvalidated_entry:
  "(case run U0 [Connect 1, Connect 2, Connect 3, CreateRoom 1 room_R nick_A [],
                 JoinRoom 2 room_R nick_B, JoinRoom 3 room_R nick_C,
                 SubmitAnswer 1 answer_X, SubmitAnswer 3 answer_Y,
                 LeaveRoom 1, WithdrawAnswer 1, SubmitVote 2 invalid_str] init of
      Inl e \<Rightarrow> False
    | Inr s \<Rightarrow>
        (case rooms s room_R of None \<Rightarrow> False
         | Some r \<Rightarrow>
             validationQueue r = [\<lparr>answer = answer_Y, sub_nickname = nick_C\<rparr>] \<and>
             map_option submission (currentVote r) = Some sub_A \<and>
             map_option voters (currentVote r) = Some [nick_B, nick_C] \<and>
             map_option votes (currentVote r) = Some [(nick_B, invalid_str)] \<and>
             (case step U0 (SubmitVote 3 invalid_str) s of Inl e \<Rightarrow> False
              | Inr s' \<Rightarrow>
                  (case rooms s' room_R of None \<Rightarrow> False
                   | Some r' \<Rightarrow>
                       validationQueue r' = [] \<and> currentVote r' = None \<and>
                       usedSentences r' = [] \<and> localCache s' = [] \<and>
                       map (score \<circ> snd) (players r') = [0, 0] \<and>
                       timers s' = (\<lambda>t. None) \<and>
                       map content (messages r') =
                         [MsgWelcome nick_A, MsgWelcome nick_B, MsgWelcome nick_C,
                          MsgVerifying answer_X nick_A, MsgToVote answer_X, MsgLeft nick_A,
                          MsgVoted nick_B, MsgVoted nick_C, MsgVoteFailed answer_X])))) \<and>
   (case run U0 [Connect 1, Connect 2, Connect 3, CreateRoom 1 room_R nick_A [],
                 JoinRoom 2 room_R nick_B, JoinRoom 3 room_R nick_C,
                 SubmitAnswer 1 answer_X, SubmitAnswer 3 answer_Y,
                 SubmitVote 2 invalid_str, SubmitVote 3 invalid_str] init of
      Inl e \<Rightarrow> False
    | Inr s \<Rightarrow>
        (case rooms s room_R of None \<Rightarrow> False
         | Some r \<Rightarrow>
             validationQueue r = [\<lparr>answer = answer_Y, sub_nickname = nick_C\<rparr>] \<and>
             map_option submission (currentVote r)
               = Some \<lparr>answer = answer_Y, sub_nickname = nick_C\<rparr> \<and>
             map content (messages r) =
               [MsgWelcome nick_A, MsgWelcome nick_B, MsgWelcome nick_C,
                MsgVerifying answer_X nick_A, MsgToVote answer_X,
                MsgVoted nick_B, MsgVoted nick_C, MsgVoteFailed answer_X,
                MsgVerifying answer_Y nick_C, MsgToVote answer_Y]))"
  by (simp add: example_defs handler_defs)

text \<open>
  A vote without voters. \<open>A\<close>, alone in room \<open>R\<close>, submits a phrase that is not
  cached: \<^verbatim>\<open>startPlayerVote\<close> opens a vote with an empty voter set and starts no
  timer. A minute later the vote is still open and the phrase still at the head of the
  queue: \<^verbatim>\<open>handleVoteEnd\<close> is called from a vote, a vote timer and the disconnection
  of a voter only.
\<close>

lemma vote_without_voters_stays_open:
  "(case run U0 [Connect 1, CreateRoom 1 room_R nick_A [], SubmitAnswer 1 answer_X,
                 Advance 60000] init of
      Inl e \<Rightarrow> False
    | Inr s \<Rightarrow>
        (case rooms s room_R of None \<Rightarrow> False
         | Some r \<Rightarrow>
             map_option submission (currentVote r) = Some sub_A \<and>
             map_option voters (currentVote r) = Some [] \<and>
             validationQueue r = [sub_A] \<and>
             timers s = (\<lambda>t. None) \<and> localCache s = [] \<and>
             map (score \<circ> snd) (players r) = [0]))"
  by (simp add: example_defs handler_defs)

section \<open>Joining under a nickname that differs in letter case\<close>

text \<open>
  C9, as amended. A join request with a nickname of 1 to 10 characters that differs only
  in letter case from the nickname of an offline record, that no online player holds
  case-insensitively, under which itself no record is stored, and that is not the name
  of a property of \<^verbatim>\<open>Object.prototype\<close>, is not routed to \<^verbatim>\<open>reconnectPlayer\<close>:
  the record is looked up by the exact key, a new player is created with score 0,
  online, on the joining socket, and the offline record (as every other record) stays
  as it was.
\<close>

theorem joinRoom_case_variant:
  assumes "rooms s rid = Some room"
    and "1 \<le> length nick" and "length nick \<le> 10"
    and "map_of (players room) k = Some old" and "\<not> online old"
    and "k \<noteq> nick" and "toLowerCase U k = toLowerCase U nick"
    and "\<not> (\<exists>p \<in> set (map snd (players room)).
             toLowerCase U (nickname p) = toLowerCase U nick \<and> online p)"
    and "map_of (players room) nick = None"
    and "nick \<notin> set object_prototype_names"
  shows "\<exists>s' room'. joinRoom U sock rid nick s = Inr s' \<and>
     joinRoom U sock rid nick s \<noteq> Inr (reconnectPlayer sock rid nick s) \<and>
     rooms s' rid = Some room' \<and>
     map_of (players room') nick =
       Some \<lparr>nickname = nick, score = 0, online = True, socketId = Some (sock_id sock),
             disconnectTime = None\<rparr> \<and>
     map_of (players room') k = Some old \<and>
     (\<forall>n. n \<noteq> nick \<longrightarrow> map_of (players room') n = map_of (players room) n)"
proof -
  let ?p = "\<lparr>nickname = nick, score = 0, online = True, socketId = Some (sock_id sock),
             disconnectTime = None\<rparr>"
  let ?s2 = "upd_room rid (\<lambda>r. r\<lparr>players := AList.update nick ?p (players r)\<rparr>)
               (set_socket (sock_id sock) rid nick s)"
  let ?s3 = "broadcastMessage rid (MsgWelcome nick)
               (emit (ToSocket (sock_id sock)) (JoinSuccess rid) ?s2)"
  let ?s4 = "case currentVote room of None \<Rightarrow> ?s3
             | Some v \<Rightarrow> emit (ToSocket (sock_id sock)) (VoteInProgress (answer (submission v))) ?s3"
  let ?s' = "broadcastRoomList (broadcastGameState rid ?s4)"
  have n: "nick \<noteq> []" "\<not> length nick > 10" "\<not> length nick < 1"
    using assms(2,3) by auto
  have eq: "joinRoom U sock rid nick s = Inr ?s'"
    using assms(1,8,9,10) n by (auto simp: joinRoom_def Let_def)
  have r4: "rooms ?s4 = rooms ?s3"
    by (cases "currentVote room") (simp_all add: fun_eq_iff)
  have r: "rooms ?s' rid = Some (room\<lparr>players := AList.update nick ?p (players room),
      messages := push_message \<lparr>content = MsgWelcome nick, className = GameMessage,
         timestamp = now s\<rparr> (messages room)\<rparr>)"
    using assms(1) by (simp add: r4)
  have rc: "rooms (reconnectPlayer sock rid nick s) rid = Some room"
    using assms(1,9) by (simp add: reconnectPlayer_def)
  have ne: "Inr ?s' \<noteq> Inr (reconnectPlayer sock rid nick s)"
  proof
    assume "Inr ?s' = Inr (reconnectPlayer sock rid nick s)"
    then have "rooms ?s' rid = rooms (reconnectPlayer sock rid nick s) rid" by simp
    then have "room\<lparr>players := AList.update nick ?p (players room),
      messages := push_message \<lparr>content = MsgWelcome nick, className = GameMessage,
         timestamp = now s\<rparr> (messages room)\<rparr> = room"
      unfolding r rc by simp
    then have "AList.update nick ?p (players room) = players room"
      by (drule_tac f = players in arg_cong) simp
    then have "map_of (AList.update nick ?p (players room)) nick = map_of (players room) nick"
      by simp
    then show False using assms(9) by (simp add: update_conv')
  qed
  show ?thesis
    unfolding eq using ne r assms(4,6) by (simp add: update_conv')
qed

theorem joinRoom_case_variant_witness:
  "rooms offline_state room_R = Some offline_room \<and>
   1 \<le> length nick_B \<and> length nick_B \<le> 10 \<and>
   map_of (players offline_room) nick_b = Some player_b \<and> \<not> online player_b \<and>
   nick_b \<noteq> nick_B \<and> toLowerCase U0 nick_b = toLowerCase U0 nick_B \<and>
   map_of (players offline_room) nick_B = None \<and>
   nick_B \<notin> set object_prototype_names \<and>
   (\<exists>s' room'. joinRoom U0 socket_3 room_R nick_B offline_state = Inr s' \<and>
      rooms s' room_R = Some room' \<and>
      map_of (players room') nick_B =
        Some \<lparr>nickname = nick_B, score = 0, online = True, socketId = Some 3,
              disconnectTime = None\<rparr> \<and>
      map_of (players room') nick_b = Some player_b)"
proof -
  have h: "rooms offline_state room_R = Some offline_room"
    "1 \<le> length nick_B" "length nick_B \<le> 10"
    "map_of (players offline_room) nick_b = Some player_b" "\<not> online player_b"
    "nick_b \<noteq> nick_B" "toLowerCase U0 nick_b = toLowerCase U0 nick_B"
    "\<not> (\<exists>p \<in> set (map snd (players offline_room)).
             toLowerCase U0 (nickname p) = toLowerCase U0 nick_B \<and> online p)"
    "map_of (players offline_room) nick_B = None"
    "nick_B \<notin> set object_prototype_names"
    by (simp_all add: example_defs)
  have s: "sock_id socket_3 = 3" by (simp add: socket_3_def)
  from joinRoom_case_variant [OF h, of socket_3] h show ?thesis
    unfolding s by blast
qed

text \<open>
  C9 as stated fails, in two ways. First run: player \<open>b\<close> creates room \<open>R\<close> and loses
  the connection; \<open>B\<close> joins as a new player, wins a round (score 1) and loses the
  connection too. Now \<open>B\<close> differs from the offline record \<open>b\<close> only in letter case
  and no online player holds it, yet a join as \<open>B\<close> is routed to
  \<^verbatim>\<open>reconnectPlayer\<close>: the record \<open>B\<close> comes back with its score 1, and no player
  with score 0 is created. Second run: \<^verbatim>\<open>TOSTRING\<close> creates room \<open>R\<close> and loses the
  connection. The nickname \<^verbatim>\<open>toString\<close> differs from that offline record only in letter
  case, no online player holds it and no record is stored under it, yet
  \<^verbatim>\<open>room.players[nickname]\<close> finds the function that every object inherits under that
  name: the join is routed to \<^verbatim>\<open>reconnectPlayer\<close>, and the room has no new player.
\<close>

theorem joinRoom_case_variant_counterexample:
  "(case run U0 [Connect 1, CreateRoom 1 room_R nick_b [], Disconnect 1, Connect 2,
                 JoinRoom 2 room_R nick_B, AdminCacheAdd answer_X, SubmitAnswer 2 answer_X,
                 Disconnect 2] init of
      Inl e \<Rightarrow> False
    | Inr s \<Rightarrow>
        (case rooms s room_R of None \<Rightarrow> False
         | Some r \<Rightarrow>
             map_option online (map_of (players r) nick_b) = Some False \<and>
             nick_b \<noteq> nick_B \<and> toLowerCase U0 nick_b = toLowerCase U0 nick_B \<and>
             filter online (map snd (players r)) = [] \<and>
             joinRoom U0 socket_3 room_R nick_B s = Inr (reconnectPlayer socket_3 room_R nick_B s) \<and>
             (case rooms (reconnectPlayer socket_3 room_R nick_B s) room_R of None \<Rightarrow> False
              | Some r' \<Rightarrow> map snd (players r') =
                  [\<lparr>nickname = nick_b, score = 0, online = False, socketId = Some 1,
                    disconnectTime = Some 0\<rparr>,
                   \<lparr>nickname = nick_B, score = 1, online = True, socketId = Some 3,
                    disconnectTime = None\<rparr>]))) \<and>
   (case run U0 [Connect 1, CreateRoom 1 room_R nick_TOSTRING [], Disconnect 1] init of
      Inl e \<Rightarrow> False
    | Inr s \<Rightarrow>
        (case rooms s room_R of None \<Rightarrow> False
         | Some r \<Rightarrow>
             map_option online (map_of (players r) nick_TOSTRING) = Some False \<and>
             nick_TOSTRING \<noteq> nick_toString \<and>
             toLowerCase U0 nick_TOSTRING = toLowerCase U0 nick_toString \<and>
             filter online (map snd (players r)) = [] \<and>
             map_of (players r) nick_toString = None \<and>
             joinRoom U0 socket_3 room_R nick_toString s =
               Inr (reconnectPlayer socket_3 room_R nick_toString s) \<and>
             (case rooms (reconnectPlayer socket_3 room_R nick_toString s) room_R of
                None \<Rightarrow> False
              | Some r' \<Rightarrow> map fst (players r') = [nick_TOSTRING])))"
  by (simp add: example_defs handler_defs)

section \<open>A voter who loses the connection\<close>

text \<open>
  C5 fails in a permanent room. \<open>A\<close> and \<open>B\<close> are in room \<open>R\<close>, the admin makes the
  room permanent, \<open>A\<close> submits and \<open>B\<close> is the only voter, with timer 0. When the
  socket of \<open>B\<close> drops, \<^verbatim>\<open>handlePlayerDisconnect\<close> marks \<open>B\<close> offline and returns
  before it reaches the vote: no vote is recorded, timer 0 stays pending and the vote stays
  open until that timer fires. In the same run without the admin's step the vote of
  \<open>B\<close> is recorded as \<^verbatim>\<open>'valid'\<close>, its timer is cancelled and the vote concludes:
  \<open>A\<close> has score 1.
\<close>

theorem disconnect_in_permanent_room_leaves_vote_waiting:
  "(case run U0 [Connect 1, Connect 2, CreateRoom 1 room_R nick_A [], JoinRoom 2 room_R nick_B,
                 AdminTogglePermanent room_R, SubmitAnswer 1 answer_X, Disconnect 2] init of
      Inl e \<Rightarrow> False
    | Inr s \<Rightarrow>
        timers s 0 = Some (15000, VoteTimeout room_R nick_B) \<and>
        (case rooms s room_R of None \<Rightarrow> False
         | Some r \<Rightarrow>
             isPermanent r \<and>
             map_option online (map_of (players r) nick_B) = Some False \<and>
             (case currentVote r of None \<Rightarrow> False
              | Some v \<Rightarrow> voters v = [nick_B] \<and> votes v = [] \<and>
                          timeouts v = [(nick_B, 0)]))) \<and>
   (case run U0 [Connect 1, Connect 2, CreateRoom 1 room_R nick_A [], JoinRoom 2 room_R nick_B,
                 SubmitAnswer 1 answer_X, Disconnect 2] init of
      Inl e \<Rightarrow> False
    | Inr s \<Rightarrow>
        timers s 0 = None \<and>
        (case rooms s room_R of None \<Rightarrow> False
         | Some r \<Rightarrow>
             \<not> isPermanent r \<and> currentVote r = None \<and>
             map_option score (map_of (players r) nick_A) = Some 1))"
  by (simp add: example_defs handler_defs)

section \<open>Reconnecting\<close>

text \<open>
  A reconnect request is rejected unless the room exists and holds an offline record under
  exactly that nickname; when it is accepted, the record keeps its nickname and score, is
  online again on the new socket, and the entry of the nickname in \<^verbatim>\<open>reconnectTimeouts\<close>
  is deleted.
\<close>

lemma reconnectPlayer_rejects:
  assumes "\<not> (\<exists>room p. rooms s rid = Some room \<and> map_of (players room) nick = Some p \<and> \<not> online p)"
  shows "reconnectPlayer sock rid nick s = emit (ToSocket (sock_id sock)) ReconnectError s"
  using assms by (auto simp: reconnectPlayer_def split: option.splits)

lemma reconnectPlayer_restores:
  assumes "rooms s rid = Some room" and "map_of (players room) nick = Some p" and "\<not> online p"
  shows "\<exists>room'. rooms (reconnectPlayer sock rid nick s) rid = Some room' \<and>
     map_of (players room') nick =
       Some (p\<lparr>online := True, socketId := Some (sock_id sock), disconnectTime := None\<rparr>) \<and>
     (\<forall>n. n \<noteq> nick \<longrightarrow> map_of (players room') n = map_of (players room) n) \<and>
     reconnectTimeouts (reconnectPlayer sock rid nick s) nick = None \<and>
     sockets (reconnectPlayer sock rid nick s) (sock_id sock) =
       Some \<lparr>sock_id = sock_id sock, roomId = Some rid, sock_nickname = Some nick\<rparr>"
  using assms
  by (simp add: reconnectPlayer_def Let_def split_beta set_socket_def update_conv'
      split: option.splits)

text \<open>
  C7 fails when two rooms hold a player of the same nickname: \<^verbatim>\<open>reconnectTimeouts\<close> is
  keyed by the nickname alone. \<open>B\<close> of room \<open>R\<close> loses the connection (eviction timer
  0), then \<open>B\<close> of room \<open>S\<close> does (eviction timer 1, which takes the place of timer 0
  in the table). When \<open>B\<close> reconnects to \<open>R\<close>, the call succeeds and cancels timer 1,
  the eviction timer of the other room; timer 0 stays pending. In the second run \<open>B\<close>
  drops again 29 seconds later, and timer 0 fires one second after that: \<open>B\<close> is evicted
  from \<open>R\<close> one second into the grace period.
\<close>

theorem reconnect_cancels_timer_of_other_room:
  "(case run U0 [Connect 1, CreateRoom 1 room_R nick_A [], Connect 2, JoinRoom 2 room_R nick_B,
                 Connect 3, CreateRoom 3 room_S nick_A [], Connect 4, JoinRoom 4 room_S nick_B,
                 Disconnect 2, Disconnect 4, Connect 5, ReconnectPlayer 5 room_R nick_B] init of
      Inl e \<Rightarrow> False
    | Inr s \<Rightarrow>
        timers s 0 = Some (30000, ReconnectTimeout room_R nick_B nick_B) \<and>
        timers s 1 = None \<and> reconnectTimeouts s nick_B = None \<and>
        (case rooms s room_R of None \<Rightarrow> False
         | Some r \<Rightarrow> map_option online (map_of (players r) nick_B) = Some True) \<and>
        (case rooms s room_S of None \<Rightarrow> False
         | Some r \<Rightarrow> map_option online (map_of (players r) nick_B) = Some False)) \<and>
   (case run U0 [Connect 1, CreateRoom 1 room_R nick_A [], Connect 2, JoinRoom 2 room_R nick_B,
                 Connect 3, CreateRoom 3 room_S nick_A [], Connect 4, JoinRoom 4 room_S nick_B,
                 Disconnect 2, Disconnect 4, Connect 5, ReconnectPlayer 5 room_R nick_B,
                 Advance 29000, Disconnect 5, Advance 1000, TimerFires 0] init of
      Inl e \<Rightarrow> False
    | Inr s \<Rightarrow>
        now s = 30000 \<and>
        (case rooms s room_R of None \<Rightarrow> False
         | Some r \<Rightarrow> map fst (players r) = [nick_A]))"
  by (simp add: example_defs handler_defs)

section \<open>Timers of a destroyed room\<close>











section \<open>Votes and choices in the same room\<close>

lemma overlap_same:
  "rooms s' rid' = rooms s rid' \<Longrightarrow> choiceTimeouts s' rid' = choiceTimeouts s rid' \<Longrightarrow>
   overlap s' rid' = overlap s rid'"
  by (simp add: overlap_def split: option.splits)

lemma overlap_mapped:
  assumes "rooms s' rid' = map_option g (rooms s rid')"
    and "\<And>r. (currentVote (g r) = None) = (currentVote r = None)"
    and "choiceTimeouts s' rid' = choiceTimeouts s rid'"
  shows "overlap s' rid' = overlap s rid'"
  using assms by (cases "rooms s rid'") (simp_all add: overlap_def)

lemma overlap_upd_room:
  assumes "\<And>r. (currentVote (f r) = None) = (currentVote r = None)"
  shows "overlap (upd_room rid f s) rid' = overlap s rid'"
proof (cases "rid' = rid")
  case True
  show ?thesis
    by (rule overlap_mapped [where g = f]) (simp_all add: True assms)
next
  case False
  then show ?thesis by (intro overlap_same) simp_all
qed

lemma overlap_prims [simp]:
  "overlap (emit t e s) rid' = overlap s rid'"
  "overlap (broadcastGameState rid s) rid' = overlap s rid'"
  "overlap (broadcastRoomList s) rid' = overlap s rid'"
  "overlap (sendPrivateMessage sock c s) rid' = overlap s rid'"
  "overlap (clearTimeout h s) rid' = overlap s rid'"
  "overlap (clearTimeouts ts s) rid' = overlap s rid'"
  "overlap (snd (setTimeout a d s)) rid' = overlap s rid'"
  "overlap (set_socket sid rid nick s) rid' = overlap s rid'"
  "overlap (cache_add k s) rid' = overlap s rid'"
  "overlap (s\<lparr>reconnectTimeouts := rt\<rparr>) rid' = overlap s rid'"
  "overlap (s\<lparr>timers := tm\<rparr>) rid' = overlap s rid'"
  "overlap (s\<lparr>sockets := so\<rparr>) rid' = overlap s rid'"
  "overlap (s\<lparr>now := n\<rparr>) rid' = overlap s rid'"
  "overlap (s\<lparr>localCache := lc\<rparr>) rid' = overlap s rid'"
  by (simp_all add: overlap_def split: option.splits)

lemma overlap_broadcastMessage [simp]:
  "overlap (broadcastMessage rid c s) rid' = overlap s rid'"
proof (cases "rid' = rid")
  case True
  show ?thesis
    by (rule overlap_mapped [where g = "\<lambda>r. r\<lparr>messages :=
          push_message \<lparr>content = c, className = GameMessage, timestamp = now s\<rparr>
               (messages r)\<rparr>"]) (simp_all add: True)
next
  case False
  then show ?thesis by (intro overlap_same) simp_all
qed

lemma overlap_upd_vote [simp]: "overlap (upd_vote rid f s) rid' = overlap s rid'"
  unfolding upd_vote_def by (rule overlap_upd_room) simp

lemma overlap_players [simp]:
  "overlap (upd_room rid (\<lambda>r. r\<lparr>players := f r\<rparr>) s) rid' = overlap s rid'"
  by (rule overlap_upd_room) simp

lemma overlap_startNewRound [simp]: "overlap (startNewRound rid c w s) rid' = overlap s rid'"
  by (simp add: startNewRound_def overlap_upd_room split: option.splits)

lemma handleCorrectAnswer_overlap:
  assumes "handleCorrectAnswer U rid sub s = Inr s'"
    and "rooms s rid = Some room" and "currentVote room = None"
    and "\<not> overlap s rid'"
  shows "\<not> overlap s' rid'"
proof (rule handleCorrectAnswer_cases [OF assms(2), of U sub])
  fix s'' room'
  assume a: "handleCorrectAnswer U rid sub s = Inr s''" "rooms s'' rid = Some room'"
    "currentVote room' = currentVote room"
    "\<And>rid'. rid' \<noteq> rid \<Longrightarrow> rooms s'' rid' = rooms s rid'"
    "\<And>rid'. rid' \<noteq> rid \<Longrightarrow> choiceTimeouts s'' rid' = choiceTimeouts s rid'"
  have s: "s'' = s'" using a(1) assms(1) by simp
  show ?thesis
  proof (cases "rid' = rid")
    case True
    then show ?thesis using a(2,3) assms(3) s by (simp add: overlap_def)
  next
    case False
    then have "overlap s' rid' = overlap s rid'"
      using a(4,5) s by (intro overlap_same) simp_all
    then show ?thesis using assms(4) by simp
  qed
qed

lemma processValidationQueue_overlap:
  assumes "processValidationQueue U rid s = Inr s'"
    and "rid' = rid \<Longrightarrow> choiceTimeouts s rid = None"
    and "\<not> overlap s rid'"
  shows "\<not> overlap s' rid'"
proof (cases "rooms s rid")
  case None
  then show ?thesis using assms by (simp add: processValidationQueue_no_room)
next
  case (Some room)
  show ?thesis
  proof (rule processValidationQueue_cases [OF Some, of U])
    fix s'' room'
    assume a: "processValidationQueue U rid s = Inr s''" "rooms s'' rid = Some room'"
      "currentVote room' = None \<or> choiceTimeouts s'' rid = choiceTimeouts s rid"
      "\<And>rid'. rid' \<noteq> rid \<Longrightarrow> rooms s'' rid' = rooms s rid'"
      "\<And>rid'. rid' \<noteq> rid \<Longrightarrow> choiceTimeouts s'' rid' = choiceTimeouts s rid'"
    have s: "s'' = s'" using a(1) assms(1) by simp
    show ?thesis
    proof (cases "rid' = rid")
      case True
      then show ?thesis using a(2,3) assms(2) s by (auto simp: overlap_def)
    next
      case False
      then have "overlap s' rid' = overlap s rid'"
        using a(4,5) s by (intro overlap_same) simp_all
      then show ?thesis using assms(3) by simp
    qed
  qed
qed

lemma handleVoteEnd_overlap:
  assumes "handleVoteEnd U rid s = Inr s'" and "\<not> overlap s rid'"
  shows "\<not> overlap s' rid'"
proof (cases "\<exists>room v. rooms s rid = Some room \<and> currentVote room = Some v")
  case False
  then have "handleVoteEnd U rid s = Inr s"
    by (intro handleVoteEnd_idle) (cases "rooms s rid"; auto)
  then show ?thesis using assms by simp
next
  case True
  then obtain room v where rv: "rooms s rid = Some room" "currentVote room = Some v"
    by blast
  let ?sub = "submission v"
  let ?s2 = "upd_room rid (\<lambda>r. r\<lparr>currentVote := None,
                validationQueue := tl (validationQueue r)\<rparr>)
               (clearTimeouts (map snd (timeouts v)) s)"
  let ?sp = "cache_add (normalizeSentence U (answer ?sub))
               (broadcastMessage rid (if voters v = [] then MsgAutoPass (answer ?sub)
                                      else MsgVotePassed (answer ?sub)) ?s2)"
  let ?sf = "broadcastGameState rid (broadcastMessage rid (MsgVoteFailed (answer ?sub)) ?s2)"
  have r2: "rooms ?s2 rid = Some (room\<lparr>currentVote := None,
                validationQueue := tl (validationQueue room)\<rparr>)"
    using rv by simp
  have o2: "\<not> overlap ?s2 rid'"
  proof (cases "rid' = rid")
    case True
    have "\<not> overlap ?s2 rid" unfolding overlap_def r2 by simp
    then show ?thesis using True by simp
  next
    case False
    then have "overlap ?s2 rid' = overlap s rid'" by (intro overlap_same) simp_all
    then show ?thesis using assms(2) by simp
  qed
  have c: "rid' = rid \<Longrightarrow> choiceTimeouts ?sf rid = None"
    using assms(2) rv by (simp add: overlap_def)
  show ?thesis
  proof (cases "voters v = [] \<or> length (voters v) div 2 + 1 \<le> validVotes (votes v)")
    case True
    then have e: "handleCorrectAnswer U rid ?sub ?sp = Inr s'"
      using assms(1) unfolding handleVoteEnd_eq [OF rv] Let_def by simp
    obtain rp where rp: "rooms ?sp rid = Some rp" "currentVote rp = None"
      using rv by simp
    have "\<not> overlap ?sp rid'" using o2 by simp
    from handleCorrectAnswer_overlap [OF e rp this] show ?thesis .
  next
    case False
    then have e: "processValidationQueue U rid ?sf = Inr s'"
      using assms(1) unfolding handleVoteEnd_eq [OF rv] Let_def by simp
    have "\<not> overlap ?sf rid'" using o2 by simp
    from processValidationQueue_overlap [OF e c this] show ?thesis .
  qed
qed

lemma handleVoteTimeout_overlap:
  "handleVoteTimeout U rid nick s = Inr s' \<Longrightarrow> \<not> overlap s rid' \<Longrightarrow> \<not> overlap s' rid'"
  by (auto simp: handleVoteTimeout_def Let_def split: option.splits if_splits
      dest!: handleVoteEnd_overlap)

lemma handlePlayerVote_overlap:
  "handlePlayerVote U sock rid v s = Inr s' \<Longrightarrow> \<not> overlap s rid' \<Longrightarrow> \<not> overlap s' rid'"
  by (auto simp: handlePlayerVote_def Let_def split: option.splits if_splits
      dest!: handleVoteEnd_overlap)

lemma overlap_removePlayerFromRoom:
  "\<not> overlap s rid' \<Longrightarrow> \<not> overlap (snd (removePlayerFromRoom rid nick s)) rid'"
  by (auto simp: overlap_def removePlayerFromRoom_def Let_def split: option.splits if_splits)

lemma overlap_drop_choice:
  "\<not> overlap s rid' \<Longrightarrow> \<not> overlap (s\<lparr>choiceTimeouts := (choiceTimeouts s)(rid := None)\<rparr>) rid'"
  by (auto simp: overlap_def split: option.splits)

lemma overlap_new_room:
  "\<not> overlap s rid' \<Longrightarrow> currentVote r = None \<Longrightarrow>
   \<not> overlap (s\<lparr>rooms := (rooms s)(rid \<mapsto> r)\<rparr>) rid'"
  by (auto simp: overlap_def split: option.splits)

lemma overlap_delete_room:
  "\<not> overlap s rid' \<Longrightarrow> \<not> overlap (s\<lparr>rooms := (rooms s)(rid := None)\<rparr>) rid'"
  by (auto simp: overlap_def split: option.splits)

lemma reconnectPlayer_overlap [simp]:
  "overlap (reconnectPlayer sock rid nick s) rid' = overlap s rid'"
  by (simp add: reconnectPlayer_def Let_def split_beta split: option.splits)

lemma joinRoom_overlap:
  "joinRoom U sock rid nick s = Inr s' \<Longrightarrow> \<not> overlap s rid' \<Longrightarrow> \<not> overlap s' rid'"
  by (auto simp: joinRoom_def Let_def split: option.splits if_splits)

lemma createRoom_overlap:
  assumes "createRoom U sock rn nick rnd s = Inr s'" and "\<not> overlap s rid'"
  shows "\<not> overlap s' rid'"
proof -
  let ?rid = "if rn = [] then rnd else rn"
  let ?s1 = "s\<lparr>rooms := (rooms s)(?rid \<mapsto>
               \<lparr>room_id = ?rid, room_name = ?rid, players = [], isPermanent = False,
                currentStartChar = start_char, usedSentences = [],
                validationQueue = [], currentVote = None, messages = []\<rparr>)\<rparr>"
  show ?thesis
  proof (cases "rooms s ?rid")
    case None
    have o: "\<not> overlap ?s1 rid'"
      by (rule overlap_new_room) (simp_all add: assms(2))
    have "joinRoom U sock ?rid nick ?s1 = Inr s'"
      using assms(1) None by (simp add: createRoom_def Let_def)
    then show ?thesis using o by (rule joinRoom_overlap)
  next
    case (Some r)
    then have "s' = emit (ToSocket (sock_id sock)) JoinError s"
      using assms(1) by (simp add: createRoom_def Let_def)
    then show ?thesis using assms(2) by simp
  qed
qed

lemma reconnectTimeoutFires_overlap:
  "\<not> overlap s rid' \<Longrightarrow> \<not> overlap (reconnectTimeoutFires rid nick pn s) rid'"
  using overlap_removePlayerFromRoom [of s rid' rid nick]
  by (auto simp: reconnectTimeoutFires_def Let_def split_beta split: option.splits)

lemma choiceTimeoutFires_overlap:
  "\<not> overlap s rid' \<Longrightarrow> \<not> overlap (choiceTimeoutFires U rid ans s) rid'"
  by (auto simp: choiceTimeoutFires_def Let_def split: option.splits
      dest: overlap_drop_choice)

lemma handleCharChoice_overlap:
  "\<not> overlap s rid' \<Longrightarrow> \<not> overlap (handleCharChoice sock rid c s) rid'"
proof -
  assume a: "\<not> overlap s rid'"
  have "\<not> overlap ((clearTimeout h s)\<lparr>choiceTimeouts := (choiceTimeouts s)(rid := None)\<rparr>) rid'" for h
    using a by (auto simp: overlap_def split: option.splits)
  then show ?thesis
    using a by (auto simp: handleCharChoice_def Let_def split: option.splits)
qed

lemma handlePlayerDisconnect_overlap:
  assumes "handlePlayerDisconnect U sock g s = Inr s'" and "\<not> overlap s rid'"
  shows "\<not> overlap s' rid'"
proof -
  have r: "\<not> overlap (snd (removePlayerFromRoom rid nick (broadcastMessage rid m s))) rid'"
    for rid nick m
    by (rule overlap_removePlayerFromRoom) (simp add: assms(2))
  show ?thesis
    using assms r
    by (auto simp: handlePlayerDisconnect_def Let_def split_beta
        split: option.splits if_splits sum.splits dest!: handleVoteEnd_overlap)
qed

lemma scheduleDisconnect_overlap [simp]: "overlap (scheduleDisconnect p s) rid' = overlap s rid'"
  by (simp add: scheduleDisconnect_def split: option.splits)

lemma fold_scheduleDisconnect_overlap [simp]:
  "overlap (fold scheduleDisconnect ps s) rid' = overlap s rid'"
  by (induction ps arbitrary: s) simp_all

lemma adminDeleteRoom_overlap: "\<not> overlap s rid' \<Longrightarrow> \<not> overlap (adminDeleteRoom rid s) rid'"
  by (auto simp: adminDeleteRoom_def Let_def split: option.splits intro!: overlap_delete_room)

lemma adminKick_overlap: "\<not> overlap s rid' \<Longrightarrow> \<not> overlap (adminKick rid nick s) rid'"
  by (auto simp: adminKick_def Let_def split: option.splits intro!: overlap_removePlayerFromRoom)

lemma adminTogglePermanent_overlap [simp]:
  "overlap (adminTogglePermanent rid s) rid' = overlap s rid'"
  unfolding adminTogglePermanent_def by (rule overlap_upd_room) simp

lemma adminCache_overlap [simp]:
  "overlap (adminCacheAdd U sentence s) rid' = overlap s rid'"
  "overlap (adminCacheDelete U sentence s) rid' = overlap s rid'"
  by (simp_all add: adminCacheAdd_def adminCacheDelete_def Let_def)

lemma socketDisconnects_overlap:
  "socketDisconnects U sid s = Inr s' \<Longrightarrow> \<not> overlap s rid' \<Longrightarrow> \<not> overlap s' rid'"
  by (auto simp: socketDisconnects_def split: option.splits dest!: handlePlayerDisconnect_overlap)

lemma run_timer_overlap:
  "run_timer U act s = Inr s' \<Longrightarrow> \<not> overlap s rid' \<Longrightarrow> \<not> overlap s' rid'"
  by (cases act)
     (auto simp: run_timer_def
        dest: handleVoteTimeout_overlap socketDisconnects_overlap
          reconnectTimeoutFires_overlap choiceTimeoutFires_overlap)

lemma timerFires_overlap:
  "timerFires U t s = Inr s' \<Longrightarrow> \<not> overlap s rid' \<Longrightarrow> \<not> overlap s' rid'"
  by (auto simp: timerFires_def split: option.splits if_splits dest!: run_timer_overlap)

lemma waits_imp: "queue_waits_on_vote s \<Longrightarrow> waits_but rid s"
  by (simp add: queue_waits_on_vote_def waits_but_def)

lemma waits_intro:
  assumes "waits_but rid s"
    and "\<And>r. rooms s rid = Some r \<Longrightarrow> validationQueue r = [] \<or> currentVote r \<noteq> None"
  shows "queue_waits_on_vote s"
  unfolding queue_waits_on_vote_def
proof (intro allI impI)
  fix rid' r
  assume r: "rooms s rid' = Some r" "validationQueue r \<noteq> []"
  show "currentVote r \<noteq> None"
  proof (cases "rid' = rid")
    case True
    then show ?thesis using assms(2) [of r] r by auto
  next
    case False
    then show ?thesis using assms(1) r unfolding waits_but_def by blast
  qed
qed

lemma waits_but_rooms:
  "(\<And>rid'. rid' \<noteq> rid \<Longrightarrow> rooms s' rid' = rooms s rid') \<Longrightarrow> waits_but rid s' = waits_but rid s"
  by (simp add: waits_but_def)

lemma waits_mapped:
  assumes m: "\<And>rid'. rooms s' rid' = (if rid' = rid then map_option g (rooms s rid) else rooms s rid')"
    and q: "\<And>r. validationQueue (g r) = validationQueue r"
    and v: "\<And>r. (currentVote (g r) = None) = (currentVote r = None)"
  shows "queue_waits_on_vote s' = queue_waits_on_vote s"
proof
  assume H: "queue_waits_on_vote s'"
  show "queue_waits_on_vote s"
    unfolding queue_waits_on_vote_def
  proof (intro allI impI)
    fix rid' r
    assume r: "rooms s rid' = Some r" "validationQueue r \<noteq> []"
    show "currentVote r \<noteq> None"
    proof (cases "rid' = rid")
      case True
      then have "rooms s' rid = Some (g r)" using m [of rid] r by simp
      moreover have "validationQueue (g r) \<noteq> []" using r(2) by (simp add: q)
      ultimately have "currentVote (g r) \<noteq> None"
        using H unfolding queue_waits_on_vote_def by blast
      then show ?thesis by (simp add: v)
    next
      case False
      then have "rooms s' rid' = Some r" using m [of rid'] r by simp
      then show ?thesis using H r(2) unfolding queue_waits_on_vote_def by blast
    qed
  qed
next
  assume H: "queue_waits_on_vote s"
  show "queue_waits_on_vote s'"
    unfolding queue_waits_on_vote_def
  proof (intro allI impI)
    fix rid' r'
    assume r: "rooms s' rid' = Some r'" "validationQueue r' \<noteq> []"
    show "currentVote r' \<noteq> None"
    proof (cases "rid' = rid")
      case True
      then obtain r0 where r0: "rooms s rid = Some r0" "r' = g r0"
        using m [of rid] r by (cases "rooms s rid") auto
      then have "validationQueue r0 \<noteq> []" using r(2) by (simp add: q)
      then have "currentVote r0 \<noteq> None"
        using H r0(1) unfolding queue_waits_on_vote_def by blast
      then show ?thesis using r0(2) by (simp add: v)
    next
      case False
      then have "rooms s rid' = Some r'" using m [of rid'] r by simp
      then show ?thesis using H r(2) unfolding queue_waits_on_vote_def by blast
    qed
  qed
qed

lemma waits_prims [simp]:
  "queue_waits_on_vote (emit t e s) = queue_waits_on_vote s"
  "queue_waits_on_vote (broadcastGameState rid s) = queue_waits_on_vote s"
  "queue_waits_on_vote (broadcastRoomList s) = queue_waits_on_vote s"
  "queue_waits_on_vote (sendPrivateMessage sock c s) = queue_waits_on_vote s"
  "queue_waits_on_vote (clearTimeout h s) = queue_waits_on_vote s"
  "queue_waits_on_vote (clearTimeouts ts s) = queue_waits_on_vote s"
  "queue_waits_on_vote (snd (setTimeout a d s)) = queue_waits_on_vote s"
  "queue_waits_on_vote (set_socket sid rid nick s) = queue_waits_on_vote s"
  "queue_waits_on_vote (cache_add k s) = queue_waits_on_vote s"
  "queue_waits_on_vote (s\<lparr>choiceTimeouts := ct\<rparr>) = queue_waits_on_vote s"
  "queue_waits_on_vote (s\<lparr>reconnectTimeouts := rt\<rparr>) = queue_waits_on_vote s"
  "queue_waits_on_vote (s\<lparr>timers := tm\<rparr>) = queue_waits_on_vote s"
  "queue_waits_on_vote (s\<lparr>sockets := so\<rparr>) = queue_waits_on_vote s"
  "queue_waits_on_vote (s\<lparr>now := n\<rparr>) = queue_waits_on_vote s"
  "queue_waits_on_vote (s\<lparr>localCache := lc\<rparr>) = queue_waits_on_vote s"
  by (simp_all add: queue_waits_on_vote_def)

lemma waits_but_prims [simp]:
  "waits_but rid' (emit t e s) = waits_but rid' s"
  "waits_but rid' (broadcastGameState rid s) = waits_but rid' s"
  "waits_but rid' (clearTimeouts ts s) = waits_but rid' s"
  "waits_but rid' (cache_add k s) = waits_but rid' s"
  "waits_but rid (upd_room rid f s) = waits_but rid s"
  "waits_but rid (broadcastMessage rid c s) = waits_but rid s"
  by (simp_all add: waits_but_def)

lemma waits_upd_room_same:
  "(\<And>r. validationQueue (f r) = validationQueue r) \<Longrightarrow>
   (\<And>r. (currentVote (f r) = None) = (currentVote r = None)) \<Longrightarrow>
   queue_waits_on_vote (upd_room rid f s) = queue_waits_on_vote s"
  by (rule waits_mapped [where rid = rid and g = f]) simp_all

lemma waits_broadcastMessage [simp]:
  "queue_waits_on_vote (broadcastMessage rid c s) = queue_waits_on_vote s"
  by (rule waits_mapped [where rid = rid and g = "\<lambda>r. r\<lparr>messages :=
          push_message \<lparr>content = c, className = GameMessage, timestamp = now s\<rparr>
               (messages r)\<rparr>"]) simp_all

lemma waits_upd_vote [simp]: "queue_waits_on_vote (upd_vote rid f s) = queue_waits_on_vote s"
  unfolding upd_vote_def by (rule waits_upd_room_same) simp_all

lemma waits_players [simp]:
  "queue_waits_on_vote (upd_room rid (\<lambda>r. r\<lparr>players := f r\<rparr>) s) = queue_waits_on_vote s"
  by (rule waits_upd_room_same) simp_all

lemma waits_startNewRound [simp]:
  "queue_waits_on_vote (startNewRound rid c w s) = queue_waits_on_vote s"
  by (simp add: startNewRound_def waits_upd_room_same split: option.splits)

lemma handleCorrectAnswer_waits:
  assumes "handleCorrectAnswer U rid sub s = Inr s'" and "waits_but rid s"
  shows "queue_waits_on_vote s'"
proof (cases "rooms s rid")
  case None
  then show ?thesis using assms by (simp add: handleCorrectAnswer.simps)
next
  case (Some room)
  show ?thesis
  proof (rule handleCorrectAnswer_cases [OF Some, of U sub])
    fix s'' room'
    assume a: "handleCorrectAnswer U rid sub s = Inr s''" "rooms s'' rid = Some room'"
      "validationQueue room' = []"
      "\<And>rid'. rid' \<noteq> rid \<Longrightarrow> rooms s'' rid' = rooms s rid'"
    have s: "s'' = s'" using a(1) assms(1) by simp
    have "waits_but rid s'" using waits_but_rooms [of rid s' s] a(4) s assms(2) by simp
    then show ?thesis
      by (rule waits_intro) (use a(2,3) s in simp)
  qed
qed

lemma processValidationQueue_waits:
  assumes "processValidationQueue U rid s = Inr s'" and "waits_but rid s"
  shows "queue_waits_on_vote s'"
proof (cases "rooms s rid")
  case None
  then have "s' = s" using assms(1) by (simp add: processValidationQueue_no_room)
  then show ?thesis using assms(2) None by (intro waits_intro [of rid]) simp_all
next
  case (Some room)
  show ?thesis
  proof (cases "currentVote room \<noteq> None \<or> validationQueue room = []")
    case True
    then have "s' = s" using assms(1) Some by (simp add: processValidationQueue.simps)
    then show ?thesis using assms(2) Some True by (intro waits_intro [of rid]) auto
  next
    case False
    let ?sub = "hd (validationQueue room)"
    let ?s1 = "broadcastMessage rid (MsgVerifying (answer ?sub) (sub_nickname ?sub))
                 (broadcastGameState rid s)"
    show ?thesis
    proof (cases "normalizeSentence U (answer ?sub) \<in> set (localCache s)")
      case hit: True
      let ?s2 = "broadcastMessage rid (MsgCacheHit (answer ?sub))
                   (upd_room rid (\<lambda>r. r\<lparr>validationQueue := tl (validationQueue r)\<rparr>) ?s1)"
      have eq: "handleCorrectAnswer U rid ?sub ?s2 = Inr s'"
        using assms(1) Some False hit by (simp add: processValidationQueue.simps Let_def)
      have "waits_but rid ?s2" using assms(2) by simp
      with eq show ?thesis by (rule handleCorrectAnswer_waits)
    next
      case miss: False
      let ?s3 = "startPlayerVote rid ?sub (broadcastMessage rid (MsgToVote (answer ?sub)) ?s1)"
      have eq: "s' = ?s3"
        using assms(1) Some False miss by (simp add: processValidationQueue.simps Let_def)
      have o: "waits_but rid ?s3 = waits_but rid s"
        by (rule waits_but_rooms) (simp add: rooms_startPlayerVote)
      have v: "\<And>r. rooms ?s3 rid = Some r \<Longrightarrow> currentVote r \<noteq> None"
        using Some by (auto simp: rooms_startPlayerVote)
      show ?thesis
        unfolding eq by (rule waits_intro [of rid]) (use o assms(2) v in auto)
    qed
  qed
qed

lemma handleVoteEnd_waits:
  assumes "handleVoteEnd U rid s = Inr s'" and "queue_waits_on_vote s"
  shows "queue_waits_on_vote s'"
proof (cases "\<exists>room v. rooms s rid = Some room \<and> currentVote room = Some v")
  case False
  then have "handleVoteEnd U rid s = Inr s"
    by (intro handleVoteEnd_idle) (cases "rooms s rid"; auto)
  then show ?thesis using assms by simp
next
  case True
  then obtain room v where rv: "rooms s rid = Some room" "currentVote room = Some v"
    by blast
  have w: "waits_but rid s" using assms(2) by (rule waits_imp)
  show ?thesis
    using assms(1) w unfolding handleVoteEnd_eq [OF rv] Let_def
    by (auto split: if_splits
        intro: handleCorrectAnswer_waits processValidationQueue_waits)
qed

lemma handleVoteTimeout_waits:
  "handleVoteTimeout U rid nick s = Inr s' \<Longrightarrow> queue_waits_on_vote s \<Longrightarrow>
   queue_waits_on_vote s'"
  by (auto simp: handleVoteTimeout_def Let_def split: option.splits if_splits
      dest!: handleVoteEnd_waits)

lemma handlePlayerVote_waits:
  "handlePlayerVote U sock rid v s = Inr s' \<Longrightarrow> queue_waits_on_vote s \<Longrightarrow>
   queue_waits_on_vote s'"
  by (auto simp: handlePlayerVote_def Let_def split: option.splits if_splits
      dest!: handleVoteEnd_waits)

lemma handlePlayerInput_waits:
  assumes "handlePlayerInput U sock rid ans s = Inr s'" and "queue_waits_on_vote s"
  shows "queue_waits_on_vote s'"
proof -
  have w: "waits_but rid (broadcastGameState rid (upd_room rid f s))" for f
    using waits_imp [OF assms(2), of rid] by simp
  show ?thesis
    using assms w
    by (auto simp: handlePlayerInput_def Let_def split: option.splits if_splits
        intro: processValidationQueue_waits)
qed

lemma withdrawAnswer_waits:
  assumes "withdrawAnswer U sock s = Inr s'" and "queue_waits_on_vote s"
  shows "queue_waits_on_vote s'"
proof -
  note w = waits_imp [OF assms(2)]
  have e: "queue_waits_on_vote
      (upd_room rid (\<lambda>r. r\<lparr>validationQueue := filter P (validationQueue room)\<rparr>) s)"
    if "rooms s rid = Some room" for rid room P
  proof (rule waits_intro [of rid])
    show "waits_but rid (upd_room rid (\<lambda>r. r\<lparr>validationQueue := filter P (validationQueue room)\<rparr>) s)"
      using w by simp
    fix r
    assume "rooms (upd_room rid (\<lambda>r. r\<lparr>validationQueue := filter P (validationQueue room)\<rparr>) s) rid
      = Some r"
    then have r: "r = room\<lparr>validationQueue := filter P (validationQueue room)\<rparr>"
      using that by simp
    have "validationQueue room = [] \<or> currentVote room \<noteq> None"
      using assms(2) that unfolding queue_waits_on_vote_def by blast
    then show "validationQueue r = [] \<or> currentVote r \<noteq> None"
      unfolding r by auto
  qed
  show ?thesis
    using assms(1) assms(2) e w
    by (auto simp: withdrawAnswer_def Let_def split: option.splits if_splits
        intro: processValidationQueue_waits)
qed

lemma waits_removePlayerFromRoom:
  "queue_waits_on_vote s \<Longrightarrow> queue_waits_on_vote (snd (removePlayerFromRoom rid nick s))"
  unfolding queue_waits_on_vote_def removePlayerFromRoom_def
  by (auto simp: Let_def split: option.splits if_splits)

lemma reconnectPlayer_waits [simp]:
  "queue_waits_on_vote (reconnectPlayer sock rid nick s) = queue_waits_on_vote s"
  by (simp add: reconnectPlayer_def Let_def split_beta split: option.splits)

lemma joinRoom_waits:
  "joinRoom U sock rid nick s = Inr s' \<Longrightarrow> queue_waits_on_vote s \<Longrightarrow> queue_waits_on_vote s'"
  by (auto simp: joinRoom_def Let_def split: option.splits if_splits)

lemma waits_new_room:
  "queue_waits_on_vote s \<Longrightarrow> validationQueue r = [] \<Longrightarrow>
   queue_waits_on_vote (s\<lparr>rooms := (rooms s)(rid \<mapsto> r)\<rparr>)"
  by (simp add: queue_waits_on_vote_def)

lemma createRoom_waits:
  "createRoom U sock rn nick rnd s = Inr s' \<Longrightarrow> queue_waits_on_vote s \<Longrightarrow>
   queue_waits_on_vote s'"
  by (auto simp: createRoom_def Let_def split: option.splits if_splits
      dest!: joinRoom_waits intro!: waits_new_room)

lemma reconnectTimeoutFires_waits:
  "queue_waits_on_vote s \<Longrightarrow> queue_waits_on_vote (reconnectTimeoutFires rid nick pn s)"
  using waits_removePlayerFromRoom [of s rid nick]
  by (auto simp: reconnectTimeoutFires_def Let_def split_beta split: option.splits)

lemma choiceTimeoutFires_waits [simp]:
  "queue_waits_on_vote (choiceTimeoutFires U rid ans s) = queue_waits_on_vote s"
  by (simp add: choiceTimeoutFires_def Let_def split: option.splits)

lemma handleCharChoice_waits [simp]:
  "queue_waits_on_vote (handleCharChoice sock rid c s) = queue_waits_on_vote s"
  by (simp add: handleCharChoice_def Let_def split: option.splits)

lemma handlePlayerDisconnect_waits:
  assumes "handlePlayerDisconnect U sock g s = Inr s'" and "queue_waits_on_vote s"
  shows "queue_waits_on_vote s'"
proof -
  have r: "queue_waits_on_vote (snd (removePlayerFromRoom rid nick (broadcastMessage rid m s)))"
    for rid nick m
    by (rule waits_removePlayerFromRoom) (simp add: assms(2))
  show ?thesis
    using assms r
    by (auto simp: handlePlayerDisconnect_def Let_def split_beta
        split: option.splits if_splits sum.splits dest!: handleVoteEnd_waits)
qed

lemma scheduleDisconnect_waits [simp]:
  "queue_waits_on_vote (scheduleDisconnect p s) = queue_waits_on_vote s"
  by (simp add: scheduleDisconnect_def split: option.splits)

lemma fold_scheduleDisconnect_waits [simp]:
  "queue_waits_on_vote (fold scheduleDisconnect ps s) = queue_waits_on_vote s"
  by (induction ps arbitrary: s) simp_all

lemma waits_delete_room:
  "queue_waits_on_vote s \<Longrightarrow> queue_waits_on_vote (s\<lparr>rooms := (rooms s)(rid := None)\<rparr>)"
  by (simp add: queue_waits_on_vote_def)

lemma adminDeleteRoom_waits:
  "queue_waits_on_vote s \<Longrightarrow> queue_waits_on_vote (adminDeleteRoom rid s)"
  by (auto simp: adminDeleteRoom_def Let_def split: option.splits intro!: waits_delete_room)

lemma adminKick_waits: "queue_waits_on_vote s \<Longrightarrow> queue_waits_on_vote (adminKick rid nick s)"
  by (auto simp: adminKick_def Let_def split: option.splits intro!: waits_removePlayerFromRoom)

lemma adminTogglePermanent_waits [simp]:
  "queue_waits_on_vote (adminTogglePermanent rid s) = queue_waits_on_vote s"
  unfolding adminTogglePermanent_def by (rule waits_upd_room_same) simp_all

lemma adminCache_waits [simp]:
  "queue_waits_on_vote (adminCacheAdd U sentence s) = queue_waits_on_vote s"
  "queue_waits_on_vote (adminCacheDelete U sentence s) = queue_waits_on_vote s"
  by (simp_all add: adminCacheAdd_def adminCacheDelete_def Let_def)

lemma socketDisconnects_waits:
  "socketDisconnects U sid s = Inr s' \<Longrightarrow> queue_waits_on_vote s \<Longrightarrow> queue_waits_on_vote s'"
  by (auto simp: socketDisconnects_def split: option.splits dest!: handlePlayerDisconnect_waits)

lemma run_timer_waits:
  "run_timer U act s = Inr s' \<Longrightarrow> queue_waits_on_vote s \<Longrightarrow> queue_waits_on_vote s'"
  by (cases act)
     (auto simp: run_timer_def
        dest: handleVoteTimeout_waits socketDisconnects_waits reconnectTimeoutFires_waits)

lemma timerFires_waits:
  "timerFires U t s = Inr s' \<Longrightarrow> queue_waits_on_vote s \<Longrightarrow> queue_waits_on_vote s'"
  by (auto simp: timerFires_def split: option.splits if_splits dest!: run_timer_waits)

lemma step_waits:
  assumes "step U e s = Inr s'" and "queue_waits_on_vote s"
  shows "queue_waits_on_vote s'"
proof (cases e)
  case (Connect sid)
  then show ?thesis using assms by (auto simp: step_def split: option.splits)
next
  case (CreateRoom sid rn nick rnd)
  then show ?thesis using assms
    by (auto simp: step_def on_socket_def split: option.splits dest!: createRoom_waits)
next
  case (JoinRoom sid rid nick)
  then show ?thesis using assms
    by (auto simp: step_def on_socket_def split: option.splits dest!: joinRoom_waits)
next
  case (ReconnectPlayer sid rid nick)
  then show ?thesis using assms
    by (auto simp: step_def on_socket_def split: option.splits)
next
  case (LeaveRoom sid)
  then show ?thesis using assms
    by (auto simp: step_def on_socket_def split: option.splits
        dest!: handlePlayerDisconnect_waits)
next
  case (Disconnect sid)
  then show ?thesis using assms
    by (auto simp: step_def dest!: socketDisconnects_waits)
next
  case (SubmitAnswer sid ans)
  then show ?thesis using assms
    by (auto simp: step_def on_socket_def split: option.splits if_splits
        dest!: handlePlayerInput_waits)
next
  case (WithdrawAnswer sid)
  then show ?thesis using assms
    by (auto simp: step_def on_socket_def split: option.splits dest!: withdrawAnswer_waits)
next
  case (SubmitVote sid v)
  then show ?thesis using assms
    by (auto simp: step_def on_socket_def split: option.splits if_splits
        dest!: handlePlayerVote_waits)
next
  case (ChooseNewChar sid c)
  then show ?thesis using assms
    by (auto simp: step_def on_socket_def split: option.splits if_splits)
next
  case (TimerFires t)
  then show ?thesis using assms by (auto simp: step_def dest!: timerFires_waits)
next
  case (Advance d)
  then show ?thesis using assms by (auto simp: step_def)
next
  case (AdminTogglePermanent rid)
  then show ?thesis using assms by (auto simp: step_def)
next
  case (AdminDeleteRoom rid)
  then show ?thesis using assms by (auto simp: step_def dest: adminDeleteRoom_waits)
next
  case (AdminCacheAdd sentence)
  then show ?thesis using assms by (auto simp: step_def)
next
  case (AdminCacheDelete sentence)
  then show ?thesis using assms by (auto simp: step_def)
next
  case (AdminKick rid nick)
  then show ?thesis using assms by (auto simp: step_def dest: adminKick_waits)
qed

lemma overlap_upd_room_mono:
  assumes "\<And>r. currentVote (f r) = None \<or> currentVote (f r) = currentVote r"
    and "\<not> overlap s rid'"
  shows "\<not> overlap (upd_room rid f s) rid'"
proof (cases "rid' = rid")
  case True
  show ?thesis
  proof (cases "rooms s rid")
    case None
    then show ?thesis using True by (simp add: overlap_def)
  next
    case (Some r)
    then show ?thesis
      using True assms(1) [of r] assms(2) by (auto simp: overlap_def)
  qed
next
  case False
  then have "overlap (upd_room rid f s) rid' = overlap s rid'"
    by (intro overlap_same) simp_all
  then show ?thesis using assms(2) by simp
qed

lemma handlePlayerInput_overlap:
  assumes "handlePlayerInput U sock rid ans s = Inr s'"
    and "rid' = rid \<Longrightarrow> choiceTimeouts s rid = None"
    and "\<not> overlap s rid'"
  shows "\<not> overlap s' rid'"
proof -
  have o: "\<not> overlap (broadcastGameState rid (upd_room rid
             (\<lambda>r. r\<lparr>validationQueue := validationQueue r @ [x]\<rparr>) s)) rid'" for x
    using assms(3) by (simp add: overlap_upd_room)
  have c: "rid' = rid \<Longrightarrow> choiceTimeouts (broadcastGameState rid (upd_room rid
             (\<lambda>r. r\<lparr>validationQueue := validationQueue r @ [x]\<rparr>) s)) rid = None" for x
    using assms(2) by simp
  show ?thesis
    using assms(1,3) processValidationQueue_overlap [OF _ c o]
    by (auto simp: handlePlayerInput_def Let_def split: option.splits if_splits)
qed

lemma withdrawAnswer_overlap:
  assumes w: "withdrawAnswer U sock s = Inr s'" and o: "\<not> overlap s rid'"
    and j: "queue_waits_on_vote s"
  shows "\<not> overlap s' rid'"
proof (cases "\<exists>rid nick room. roomId sock = Some rid \<and> sock_nickname sock = Some nick \<and>
                rid \<noteq> [] \<and> nick \<noteq> [] \<and> rooms s rid = Some room")
  case False
  then have "s' = s"
    using w by (auto simp: withdrawAnswer_def split: option.splits if_splits)
  then show ?thesis using o by simp
next
  case True
  then obtain rid nick room where h: "roomId sock = Some rid" "sock_nickname sock = Some nick"
    "rid \<noteq> []" "nick \<noteq> []" "rooms s rid = Some room"
    by blast
  let ?q = "filter (\<lambda>sub. sub_nickname sub \<noteq> nick) (validationQueue room)"
  let ?s1 = "upd_room rid (\<lambda>r. r\<lparr>validationQueue := ?q\<rparr>) s"
  let ?s2 = "broadcastMessage rid (MsgWithdrew nick) ?s1"
  let ?ab = "case currentVote room of None \<Rightarrow> False
             | Some v \<Rightarrow> sub_nickname (submission v) = nick"
  let ?s3 = "if ?ab
             then broadcastMessage rid MsgVoteAborted
                    (upd_room rid (\<lambda>r. r\<lparr>currentVote := None\<rparr>)
                       (clearTimeouts (case currentVote room of None \<Rightarrow> []
                                       | Some v \<Rightarrow> map snd (timeouts v)) ?s2))
             else ?s2"
  have o1: "\<not> overlap ?s1 rid'" using o by (simp add: overlap_upd_room)
  show ?thesis
  proof (cases "length ?q < length (validationQueue room) \<and> map_of (players room) nick \<noteq> None")
    case False
    then have "s' = ?s1"
      using w h by (auto simp: withdrawAnswer_def Let_def)
    then show ?thesis using o1 by simp
  next
    case True
    then have e: "processValidationQueue U rid (broadcastGameState rid ?s3) = Inr s'"
      using w h by (auto simp: withdrawAnswer_def Let_def)
    have o3: "\<not> overlap ?s3 rid'"
    proof (cases ?ab)
      case False
      then show ?thesis using o1 by simp
    next
      case True
      have "\<not> overlap (upd_room rid (\<lambda>r. r\<lparr>currentVote := None\<rparr>)
                       (clearTimeouts (case currentVote room of None \<Rightarrow> []
                                       | Some v \<Rightarrow> map snd (timeouts v)) ?s2)) rid'"
        by (rule overlap_upd_room_mono) (use o1 in simp_all)
      then show ?thesis using True by simp
    qed
    have "validationQueue room \<noteq> []" using True by auto
    then have "currentVote room \<noteq> None"
      using j h(5) unfolding queue_waits_on_vote_def by blast
    then have "choiceTimeouts s rid = None"
      if "rid' = rid" using o h(5) that by (simp add: overlap_def)
    then have c: "rid' = rid \<Longrightarrow> choiceTimeouts (broadcastGameState rid ?s3) rid = None"
      by simp
    have "\<not> overlap (broadcastGameState rid ?s3) rid'" using o3 by simp
    from processValidationQueue_overlap [OF e c this] show ?thesis .
  qed
qed

lemma step_overlap:
  assumes "step U e s = Inr s'" and "calm_event e s" and "\<not> overlap s rid'"
    and "queue_waits_on_vote s"
  shows "\<not> overlap s' rid'"
proof (cases e)
  case (Connect sid)
  then show ?thesis using assms by (auto simp: step_def split: option.splits)
next
  case (CreateRoom sid rn nick rnd)
  then show ?thesis using assms
    by (auto simp: step_def on_socket_def split: option.splits dest: createRoom_overlap)
next
  case (JoinRoom sid rid nick)
  then show ?thesis using assms
    by (auto simp: step_def on_socket_def split: option.splits dest: joinRoom_overlap)
next
  case (ReconnectPlayer sid rid nick)
  then show ?thesis using assms
    by (auto simp: step_def on_socket_def split: option.splits)
next
  case (LeaveRoom sid)
  then show ?thesis using assms
    by (auto simp: step_def on_socket_def split: option.splits
        dest: handlePlayerDisconnect_overlap)
next
  case (Disconnect sid)
  then show ?thesis using assms
    by (auto simp: step_def dest: socketDisconnects_overlap)
next
  case (SubmitAnswer sid ans)
  show ?thesis
  proof (cases "\<exists>sock rid. sockets s sid = Some sock \<and> roomId sock = Some rid \<and> rid \<noteq> []")
    case False
    then have "s' = s"
      using assms(1) SubmitAnswer
      by (auto simp: step_def on_socket_def split: option.splits if_splits)
    then show ?thesis using assms(3) by simp
  next
    case True
    then obtain sock rid where h: "sockets s sid = Some sock" "roomId sock = Some rid" "rid \<noteq> []"
      by blast
    have e: "handlePlayerInput U sock rid ans s = Inr s'"
      using assms(1) SubmitAnswer h by (simp add: step_def on_socket_def)
    have c: "choiceTimeouts s rid = None"
      using assms(2) SubmitAnswer h by (simp add: calm_event_def)
    from handlePlayerInput_overlap [OF e c assms(3)] show ?thesis .
  qed
next
  case (WithdrawAnswer sid)
  then show ?thesis using assms
    by (auto simp: step_def on_socket_def split: option.splits dest: withdrawAnswer_overlap)
next
  case (SubmitVote sid v)
  then show ?thesis using assms
    by (auto simp: step_def on_socket_def split: option.splits if_splits
        dest: handlePlayerVote_overlap)
next
  case (ChooseNewChar sid c)
  then show ?thesis using assms
    by (auto simp: step_def on_socket_def split: option.splits if_splits
        dest: handleCharChoice_overlap)
next
  case (TimerFires t)
  then show ?thesis using assms by (auto simp: step_def dest: timerFires_overlap)
next
  case (Advance d)
  then show ?thesis using assms by (auto simp: step_def)
next
  case (AdminTogglePermanent rid)
  then show ?thesis using assms by (auto simp: step_def)
next
  case (AdminDeleteRoom rid)
  then show ?thesis using assms by (auto simp: step_def dest: adminDeleteRoom_overlap)
next
  case (AdminCacheAdd sentence)
  then show ?thesis using assms by (auto simp: step_def)
next
  case (AdminCacheDelete sentence)
  then show ?thesis using assms by (auto simp: step_def)
next
  case (AdminKick rid nick)
  then show ?thesis using assms by (auto simp: step_def dest: adminKick_overlap)
qed

lemma run_overlap:
  "run U es s0 = Inr s \<Longrightarrow> calm U es s0 \<Longrightarrow> \<forall>rid. \<not> overlap s0 rid \<Longrightarrow>
   queue_waits_on_vote s0 \<Longrightarrow> (\<forall>rid. \<not> overlap s rid) \<and> queue_waits_on_vote s"
proof (induction es arbitrary: s0)
  case Nil
  then show ?case by simp
next
  case (Cons e es)
  from Cons.prems(1) obtain s1 where s1: "step U e s0 = Inr s1" "run U es s1 = Inr s"
    by (auto split: sum.splits)
  have c: "calm_event e s0" "calm U es s1"
    using Cons.prems(2) s1(1) by simp_all
  have o: "\<forall>rid. \<not> overlap s1 rid"
    using step_overlap [OF s1(1) c(1) _ Cons.prems(4)] Cons.prems(3) by blast
  have w: "queue_waits_on_vote s1"
    using step_waits [OF s1(1) Cons.prems(4)] .
  from Cons.IH [OF s1(2) c(2) o w] show ?case .
qed

text \<open>
  Every event other than a submission that arrives while a choice of the next start
  character is pending keeps votes and choices apart: in a run of such events from the
  start of the server, no room ever has a vote and a pending choice at once. Queue
  processing, vote resolution, withdrawal, the choice, the timers, disconnections and
  the admin's actions all preserve this.
\<close>

theorem vote_and_choice_exclusive_in_calm_runs:
  assumes "run U es init = Inr s" and "calm U es init"
  shows "\<not> overlap s rid"
proof -
  have "\<forall>rid. \<not> overlap init rid" by (simp add: overlap_def init_def)
  moreover have "queue_waits_on_vote init" by (simp add: queue_waits_on_vote_def init_def)
  ultimately show ?thesis using run_overlap [OF assms] by blast
qed

theorem vote_and_choice_exclusive_in_calm_runs_witness:
  "\<exists>s. run U0 [Connect 1, Connect 2, CreateRoom 1 room_R nick_A [], JoinRoom 2 room_R nick_B,
             SubmitAnswer 1 answer_X] init = Inr s \<and>
       calm U0 [Connect 1, Connect 2, CreateRoom 1 room_R nick_A [], JoinRoom 2 room_R nick_B,
             SubmitAnswer 1 answer_X] init \<and>
       map_option (\<lambda>r. currentVote r = None) (rooms s room_R) = Some False \<and>
       \<not> overlap s room_R"
proof -
  have "\<exists>s. run U0 [Connect 1, Connect 2, CreateRoom 1 room_R nick_A [], JoinRoom 2 room_R nick_B,
             SubmitAnswer 1 answer_X] init = Inr s \<and>
       map_option (\<lambda>r. currentVote r = None) (rooms s room_R) = Some False"
    by (simp add: example_defs handler_defs)
  then obtain s where h: "run U0 [Connect 1, Connect 2, CreateRoom 1 room_R nick_A [],
       JoinRoom 2 room_R nick_B, SubmitAnswer 1 answer_X] init = Inr s"
     "map_option (\<lambda>r. currentVote r = None) (rooms s room_R) = Some False"
    by (elim exE conjE)
  have c: "calm U0 [Connect 1, Connect 2, CreateRoom 1 room_R nick_A [], JoinRoom 2 room_R nick_B,
             SubmitAnswer 1 answer_X] init"
    by (simp add: calm_event_def example_defs handler_defs)
  have o: "\<not> overlap s room_R"
    by (rule vote_and_choice_exclusive_in_calm_runs [OF h(1) c])
  show ?thesis
    by (rule exI [of _ s]) (intro conjI h c o)
qed

text \<open>
  C4 fails on the code. \<open>A\<close> submits a cached phrase, is the winner and holds the
  choice of the next start character. Before \<open>A\<close> chooses, \<open>B\<close> submits a phrase that
  is not cached: \<^verbatim>\<open>handlePlayerInput\<close> does not test whether a choice is pending (only
  the browser client disables its input field then), and \<^verbatim>\<open>processValidationQueue\<close>,
  which tests for a vote only, opens one. The room now has a vote on the submission of
  \<open>B\<close> and the pending choice of \<open>A\<close>.
\<close>

theorem submission_during_choice_opens_vote:
  "(case run U0 [Connect 1, Connect 2, CreateRoom 1 room_R nick_A [], JoinRoom 2 room_R nick_B,
                 AdminCacheAdd answer_X, SubmitAnswer 1 answer_X, SubmitAnswer 2 answer_Y] init of
      Inl e \<Rightarrow> False
    | Inr s \<Rightarrow>
        overlap s room_R \<and>
        map_option winnerNickname (choiceTimeouts s room_R) = Some nick_A \<and>
        (case rooms s room_R of None \<Rightarrow> False
         | Some r \<Rightarrow> map_option (\<lambda>v. answer (submission v)) (currentVote r) = Some answer_Y))"
  by (simp add: overlap_def example_defs handler_defs)

end
